theory Spec2Isabelle
  imports Main "HOL-Library.Word"
begin

unbundle bit_operations_syntax

section \<open>The debugger channel of guestvmDBChannel.c\<close>

text \<open>
  The file \<^verbatim>\<open>Native/tele/guestvm/guestvmDBChannel.c\<close> is the native half of a remote
  debugging channel. It keeps four static variables (\<^verbatim>\<open>terminated\<close>,
  \<^verbatim>\<open>threads_at_rest\<close>, \<^verbatim>\<open>num_threads_at_rest\<close>, \<^verbatim>\<open>suspend_all_request\<close>) and calls
  a target-control library (\<^verbatim>\<open>db_resume_all\<close>, \<^verbatim>\<open>db_gather_threads\<close>, ...) that lives outside
  the file. The embedding below passes the static variables as a record, keeps the
  \<^verbatim>\<open>malloc\<close>ed thread arrays in an explicit store, records every call of the
  target-control library in a trace, and takes the answers of that library from an
  environment.
\<close>

subsection \<open>C and JNI scalar types\<close>

type_synonym jboolean = "8 word"
type_synonym jint = "32 word"
type_synonym jlong = "64 word"
type_synonym cint = "32 word"
type_synonym size_t = "64 word"
type_synonym byte = "8 word"

text \<open>An address of a \<^verbatim>\<open>malloc\<close>ed block; a pointer is \<open>None\<close> for \<^verbatim>\<open>NULL\<close>.\<close>

type_synonym addr = nat

subsection \<open>Constants declared in headers outside the file\<close>

text \<open>
  The thread flag bits and the watchpoint kind bits are macros of the target-control
  library's headers. The file only ever tests and combines them, so they are parameters.
\<close>

record macros =
  RUNNABLE_FLAG :: cint
  RUNNING_FLAG :: cint
  DYING_FLAG :: cint
  REQ_DEBUG_SUSPEND_FLAG :: cint
  DEBUG_SUSPEND_FLAG :: cint
  AUX1_FLAG :: cint
  AUX2_FLAG :: cint
  JOIN_FLAG :: cint
  SLEEP_FLAG :: cint
  WATCH_FLAG :: cint
  AFTER_W :: cint
  READ_W :: cint
  WRITE_W :: cint
  EXEC_W :: cint

text \<open>
  Modelled from the spec: the header that gives the flag macros their values is missing.
  The spec calls the thread flags independently settable bits and the trigger kinds a
  bitmask of after, read, write and exec; this instance gives each its own bit, in the
  order the spec lists them. It is used only to instantiate theorems at concrete inputs.
\<close>

definition sample_macros :: macros where
  "sample_macros =
     \<lparr>RUNNABLE_FLAG = 1, RUNNING_FLAG = 2, DYING_FLAG = 4, REQ_DEBUG_SUSPEND_FLAG = 8,
      DEBUG_SUSPEND_FLAG = 16, AUX1_FLAG = 32, AUX2_FLAG = 64, JOIN_FLAG = 128,
      SLEEP_FLAG = 256, WATCH_FLAG = 512,
      AFTER_W = 1, READ_W = 2, WRITE_W = 4, EXEC_W = 8\<rparr>"

subsection \<open>Threads and their classification\<close>

record db_thread =
  thread_id :: cint
  flags :: cint

datatype ThreadState_t =
  TS_MONITOR_WAIT | TS_NOTIFY_WAIT | TS_JOIN_WAIT | TS_SLEEPING | TS_WATCHPOINT | TS_SUSPENDED

definition toThreadState :: "macros \<Rightarrow> cint \<Rightarrow> ThreadState_t" where
  "toThreadState k state =
     (if state AND AUX1_FLAG k \<noteq> 0 then TS_MONITOR_WAIT
      else if state AND AUX2_FLAG k \<noteq> 0 then TS_NOTIFY_WAIT
      else if state AND JOIN_FLAG k \<noteq> 0 then TS_JOIN_WAIT
      else if state AND SLEEP_FLAG k \<noteq> 0 then TS_SLEEPING
      else if state AND WATCH_FLAG k \<noteq> 0 then TS_WATCHPOINT
      else TS_SUSPENDED)"

definition is_state :: "cint \<Rightarrow> cint \<Rightarrow> cint" where
  "is_state state flag = (if state AND flag \<noteq> 0 then 1 else 0)"

definition is_th_state :: "db_thread \<Rightarrow> cint \<Rightarrow> cint" where
  "is_th_state thread flag = is_state (flags thread) flag"

subsection \<open>The store, the static variables and the trace of calls\<close>

text \<open>
  What C leaves undefined is a value of the model: reading through \<^verbatim>\<open>NULL\<close>, reading or
  freeing a block that was freed, reading past the end of a block.
\<close>

datatype fault = NullDereference | UseAfterFree | OutOfBounds | DoubleFree

text \<open>
  One entry per call of the target-control library, with its arguments, and one per
  \<^verbatim>\<open>usleep\<close> (whose argument type \<^verbatim>\<open>useconds_t\<close> has 32 bits).
\<close>

datatype event =
    E_db_resume_all
  | E_db_suspend_all
  | E_db_gather_threads
  | E_db_signoff
  | E_db_get_regs cint
  | E_db_activate_watchpoint jlong jlong cint
  | E_db_watchpoint_info cint
  | E_usleep "32 word"

text \<open>
  The static variables of the file, the store of \<^verbatim>\<open>malloc\<close>ed thread arrays (block \<open>a\<close> is
  \<open>heap ! a\<close>, \<open>None\<close> once freed; addresses are not reused) and the trace.
\<close>

record state =
  terminated :: cint
  threads_at_rest :: "addr option"
  num_threads_at_rest :: int
  suspend_all_request :: cint
  heap :: "db_thread list option list"
  calls :: "event list"

text \<open>The static initialisers: every variable is zero when the library is loaded.\<close>

definition initial_state :: state where
  "initial_state =
     \<lparr>terminated = 0, threads_at_rest = None, num_threads_at_rest = 0,
      suspend_all_request = 0, heap = [], calls = []\<rparr>"

text \<open>
  \<^verbatim>\<open>struct db_regs\<close> is declared outside the file, which reads only its fields \<^verbatim>\<open>rsp\<close> and
  \<^verbatim>\<open>rip\<close>; \<open>other_regs\<close> stands for the rest of the block.
\<close>

record db_regs =
  rsp :: jlong
  rip :: jlong
  other_regs :: "jlong list"

text \<open>
  What \<^verbatim>\<open>db_gather_threads(&num_threads)\<close> hands back: a fresh array with its length
  stored in \<^verbatim>\<open>num_threads\<close>, or \<^verbatim>\<open>NULL\<close> together with whatever \<^verbatim>\<open>num_threads\<close> then holds.
\<close>

datatype gather_result = GNull int | GThreads "db_thread list"

text \<open>
  The environment: the answer of each target-control call as a function of the trace so
  far (the trace grows with every call, so any behaviour of the target over time is such a
  function). \<open>suspend_all_arrives\<close> tells, at a read of the volatile
  \<^verbatim>\<open>suspend_all_request\<close>, whether another caller has run \<^verbatim>\<open>nativeSuspendAll\<close> since
  the read before. \<open>teleProcess_findThreadLocals_r\<close> is the thread-locals lookup of
  \<^verbatim>\<open>teleProcess.c\<close>, from the two list heads and a stack pointer.
\<close>

record env =
  db_gather_threads_r :: "event list \<Rightarrow> gather_result"
  db_get_regs_r :: "event list \<Rightarrow> cint \<Rightarrow> db_regs option"
  db_activate_watchpoint_r :: "event list \<Rightarrow> jlong \<Rightarrow> jlong \<Rightarrow> cint \<Rightarrow> cint"
  db_watchpoint_info_r :: "event list \<Rightarrow> cint \<Rightarrow> jlong \<times> cint"
  suspend_all_arrives :: "event list \<Rightarrow> bool"
  teleProcess_findThreadLocals_r :: "jlong \<Rightarrow> jlong \<Rightarrow> jlong \<Rightarrow> jlong"

definition block_at :: "state \<Rightarrow> addr \<Rightarrow> db_thread list option" where
  "block_at s a = (if a < length (heap s) then heap s ! a else None)"

definition malloc_block :: "state \<Rightarrow> db_thread list \<Rightarrow> addr \<times> state" where
  "malloc_block s ts = (length (heap s), s\<lparr>heap := heap s @ [Some ts]\<rparr>)"

text \<open>\<^verbatim>\<open>free(p)\<close>: nothing for \<^verbatim>\<open>NULL\<close>, undefined for a block that is not live.\<close>

definition free :: "state \<Rightarrow> addr option \<Rightarrow> fault + state" where
  "free s p =
     (case p of
        None \<Rightarrow> Inr s
      | Some a \<Rightarrow>
          (case block_at s a of
             None \<Rightarrow> Inl DoubleFree
           | Some ts \<Rightarrow> Inr (s\<lparr>heap := (heap s)[a := None]\<rparr>)))"

text \<open>The read \<^verbatim>\<open>threads[i]\<close>.\<close>

definition elem :: "state \<Rightarrow> addr option \<Rightarrow> int \<Rightarrow> fault + db_thread" where
  "elem s threads i =
     (case threads of
        None \<Rightarrow> Inl NullDereference
      | Some a \<Rightarrow>
          (case block_at s a of
             None \<Rightarrow> Inl UseAfterFree
           | Some ts \<Rightarrow>
               if 0 \<le> i \<and> i < int (length ts) then Inr (ts ! nat i) else Inl OutOfBounds))"

subsection \<open>Calls of the target-control library\<close>

definition db_gather_threads :: "env \<Rightarrow> state \<Rightarrow> (addr option \<times> int) \<times> state" where
  "db_gather_threads e s =
     (let s1 = s\<lparr>calls := calls s @ [E_db_gather_threads]\<rparr>
      in case db_gather_threads_r e (calls s) of
           GNull n \<Rightarrow> ((None, n), s1)
         | GThreads ts \<Rightarrow>
             (case malloc_block s1 ts of (a, s2) \<Rightarrow> ((Some a, int (length ts)), s2)))"

definition db_resume_all :: "state \<Rightarrow> state" where
  "db_resume_all s = s\<lparr>calls := calls s @ [E_db_resume_all]\<rparr>"

definition db_suspend_all :: "state \<Rightarrow> state" where
  "db_suspend_all s = s\<lparr>calls := calls s @ [E_db_suspend_all]\<rparr>"

definition db_signoff :: "state \<Rightarrow> state" where
  "db_signoff s = s\<lparr>calls := calls s @ [E_db_signoff]\<rparr>"

definition usleep :: "32 word \<Rightarrow> state \<Rightarrow> state" where
  "usleep d s = s\<lparr>calls := calls s @ [E_usleep d]\<rparr>"

subsection \<open>Connection set-up and the suspend-all request\<close>


definition nativeSuspendAll :: "state \<Rightarrow> jboolean \<times> state" where
  "nativeSuspendAll s = (1, s\<lparr>suspend_all_request := 1\<rparr>)"

text \<open>
  A read of the volatile \<^verbatim>\<open>suspend_all_request\<close>: a \<^verbatim>\<open>nativeSuspendAll\<close> of another
  caller that has arrived since the last read takes effect first.
\<close>

definition read_suspend_all_request :: "env \<Rightarrow> state \<Rightarrow> state" where
  "read_suspend_all_request e s =
     (if suspend_all_arrives e (calls s) then snd (nativeSuspendAll s) else s)"

subsection \<open>Tracing\<close>

text \<open>One line of \<^verbatim>\<open>trace_thread\<close>: the thread id and the ten flags as 0 or 1.\<close>

definition trace_thread :: "macros \<Rightarrow> db_thread \<Rightarrow> cint \<times> cint list" where
  "trace_thread k thread =
     (let state = flags thread
      in (thread_id thread,
          [is_state state (RUNNABLE_FLAG k), is_state state (RUNNING_FLAG k),
           is_state state (DYING_FLAG k), is_state state (REQ_DEBUG_SUSPEND_FLAG k),
           is_state state (DEBUG_SUSPEND_FLAG k), is_state state (AUX1_FLAG k),
           is_state state (AUX2_FLAG k), is_state state (JOIN_FLAG k),
           is_state state (SLEEP_FLAG k), is_state state (WATCH_FLAG k)]))"

function trace_threads_from ::
  "macros \<Rightarrow> state \<Rightarrow> addr option \<Rightarrow> int \<Rightarrow> int \<Rightarrow> fault + (cint \<times> cint list) list" where
  "trace_threads_from k s threads num_threads i =
     (if i < num_threads then
        (case elem s threads i of
           Inl f \<Rightarrow> Inl f
         | Inr t \<Rightarrow>
             (case trace_threads_from k s threads num_threads (i + 1) of
                Inl f \<Rightarrow> Inl f
              | Inr ls \<Rightarrow> Inr (trace_thread k t # ls)))
      else Inr [])"
  by pat_completeness auto
termination
  by (relation "measure (\<lambda>(k, s, threads, num_threads, i). nat (num_threads - i))") auto

declare trace_threads_from.simps [simp del]

definition trace_threads ::
  "macros \<Rightarrow> state \<Rightarrow> addr option \<Rightarrow> int \<Rightarrow> fault + (cint \<times> cint list) list" where
  "trace_threads k s threads num_threads = trace_threads_from k s threads num_threads 0"

definition gather_and_trace_threads :: "env \<Rightarrow> macros \<Rightarrow> state \<Rightarrow> fault + state" where
  "gather_and_trace_threads e k s =
     (if terminated s \<noteq> 0 then Inr s
      else case db_gather_threads e s of
             ((threads, num_threads), s1) \<Rightarrow>
               (case trace_threads k s1 threads num_threads of
                  Inl f \<Rightarrow> Inl f
                | Inr ls \<Rightarrow> free s1 threads))"

definition checked_get_regs ::
  "env \<Rightarrow> macros \<Rightarrow> state \<Rightarrow> cint \<Rightarrow> fault + db_regs option \<times> state" where
  "checked_get_regs e k s threadId =
     (let regs = db_get_regs_r e (calls s) threadId;
          s1 = s\<lparr>calls := calls s @ [E_db_get_regs threadId]\<rparr>
      in case regs of
           None \<Rightarrow>
             (case gather_and_trace_threads e k s1 of
                Inl f \<Rightarrow> Inl f
              | Inr s2 \<Rightarrow> Inr (None, s2))
         | Some r \<Rightarrow> Inr (Some r, s1))"

subsection \<open>Resume\<close>

text \<open>
  The scan of \<^verbatim>\<open>nativeResume\<close> for a thread with the debug-suspend flag, from index \<open>i\<close>:
  it sets \<^verbatim>\<open>suspend_all_request\<close> at the first such thread and stops there.
\<close>

function scan_debug_suspend :: "macros \<Rightarrow> state \<Rightarrow> addr option \<Rightarrow> int \<Rightarrow> int \<Rightarrow> fault + state" where
  "scan_debug_suspend k s threads num_threads i =
     (if i < num_threads then
        (case elem s threads i of
           Inl f \<Rightarrow> Inl f
         | Inr t \<Rightarrow>
             if is_th_state t (DEBUG_SUSPEND_FLAG k) \<noteq> 0
             then Inr (s\<lparr>suspend_all_request := 1\<rparr>)
             else scan_debug_suspend k s threads num_threads (i + 1))
      else Inr s)"
  by pat_completeness auto
termination
  by (relation "measure (\<lambda>(k, s, threads, num_threads, i). nat (num_threads - i))") auto

declare scan_debug_suspend.simps [simp del]

text \<open>How the polling loop is left: by \<^verbatim>\<open>return 1\<close>, or through its condition.\<close>

datatype poll_exit = Domain_terminated | Loop_left

text \<open>
  The \<^verbatim>\<open>while\<close> loop of \<^verbatim>\<open>nativeResume\<close>, entered with the local \<^verbatim>\<open>sleep_time\<close>
  (an \<^verbatim>\<open>unsigned long\<close>). It may poll forever; then the value is \<open>None\<close>.
\<close>

partial_function (option) poll ::
  "env \<Rightarrow> macros \<Rightarrow> state \<Rightarrow> 64 word \<Rightarrow> (fault + poll_exit \<times> state) option" where
  "poll e k s sleep_time =
     (let s0 = read_suspend_all_request e s
      in if suspend_all_request s0 \<noteq> 0 then Some (Inr (Loop_left, s0))
         else
           (case db_gather_threads e s0 of
              ((threads, num_threads), s1) \<Rightarrow>
                if threads = None
                then Some (Inr (Domain_terminated, (db_signoff s1)\<lparr>terminated := 1\<rparr>))
                else
                  (case trace_threads k s1 threads num_threads of
                     Inl f \<Rightarrow> Some (Inl f)
                   | Inr ls \<Rightarrow>
                       (case scan_debug_suspend k s1 threads num_threads 0 of
                          Inl f \<Rightarrow> Some (Inl f)
                        | Inr s2 \<Rightarrow>
                            (case free s2 threads of
                               Inl f \<Rightarrow> Some (Inl f)
                             | Inr s3 \<Rightarrow>
                                 (let s4 = read_suspend_all_request e s3
                                  in if suspend_all_request s4 = 0
                                     then poll e k (usleep (ucast (sleep_time + 2000)) s4)
                                            (sleep_time + 2000)
                                     else poll e k s4 sleep_time))))))"

definition nativeResume :: "env \<Rightarrow> macros \<Rightarrow> state \<Rightarrow> (fault + jboolean \<times> state) option" where
  "nativeResume e k s =
     (case (if threads_at_rest s \<noteq> None then free s (threads_at_rest s) else Inr s) of
        Inl f \<Rightarrow> Some (Inl f)
      | Inr s1 \<Rightarrow>
          (case poll e k (usleep 500 (db_resume_all s1)) 0 of
             None \<Rightarrow> None
           | Some (Inl f) \<Rightarrow> Some (Inl f)
           | Some (Inr (Domain_terminated, s2)) \<Rightarrow> Some (Inr (1, s2))
           | Some (Inr (Loop_left, s2)) \<Rightarrow>
               (case db_gather_threads e (db_suspend_all (s2\<lparr>suspend_all_request := 0\<rparr>)) of
                  ((threads, num_threads), s3) \<Rightarrow>
                    (case trace_threads k s3 threads num_threads of
                       Inl f \<Rightarrow> Some (Inl f)
                     | Inr ls \<Rightarrow>
                         Some (Inr (0, s3\<lparr>threads_at_rest := threads,
                                          num_threads_at_rest := num_threads\<rparr>))))))"

subsection \<open>Gathering threads for reporting\<close>

text \<open>What \<^verbatim>\<open>teleProcess_jniGatherThread\<close> is given for one thread.\<close>

record gathered_thread =
  g_id :: jlong
  g_state :: ThreadState_t
  g_instructionPointer :: jlong
  g_threadLocals :: jlong

text \<open>
  The \<^verbatim>\<open>for\<close> loop of \<^verbatim>\<open>nativeGatherThreads\<close> from index \<open>i\<close>. The register block that
  \<^verbatim>\<open>checked_get_regs\<close> returns is read (\<^verbatim>\<open>db_regs->rsp\<close>) without a test.
\<close>

function gather_from ::
  "env \<Rightarrow> macros \<Rightarrow> jlong \<Rightarrow> jlong \<Rightarrow> addr option \<Rightarrow> int \<Rightarrow> state \<Rightarrow> int \<Rightarrow> gathered_thread list
     \<Rightarrow> fault + gathered_thread list \<times> state" where
  "gather_from e k threadLocalsList primordialThreadLocals threads num_threads s i out =
     (if i < num_threads then
        (case elem s threads i of
           Inl f \<Rightarrow> Inl f
         | Inr t \<Rightarrow>
             (case checked_get_regs e k s (thread_id t) of
                Inl f \<Rightarrow> Inl f
              | Inr (None, s1) \<Rightarrow> Inl NullDereference
              | Inr (Some r, s1) \<Rightarrow>
                  (case elem s1 threads i of
                     Inl f \<Rightarrow> Inl f
                   | Inr t1 \<Rightarrow>
                       gather_from e k threadLocalsList primordialThreadLocals threads num_threads
                         s1 (i + 1)
                         (out @ [\<lparr>g_id = scast (thread_id t1),
                                  g_state = toThreadState k (flags t1),
                                  g_instructionPointer = rip r,
                                  g_threadLocals =
                                    teleProcess_findThreadLocals_r e threadLocalsList
                                      primordialThreadLocals (rsp r)\<rparr>]))))
      else Inr (out, s))"
  by pat_completeness auto
termination
  by (relation "measure (\<lambda>(e, k, tl, ptl, threads, num_threads, s, i, out). nat (num_threads - i))")
    auto

declare gather_from.simps [simp del]

definition nativeGatherThreads ::
  "env \<Rightarrow> macros \<Rightarrow> state \<Rightarrow> jlong \<Rightarrow> jlong \<Rightarrow> fault + jboolean \<times> gathered_thread list \<times> state" where
  "nativeGatherThreads e k s threadLocalsList primordialThreadLocals =
     (case db_gather_threads e s of
        ((threads, num_threads), s1) \<Rightarrow>
          (case gather_from e k threadLocalsList primordialThreadLocals threads num_threads s1 0 [] of
             Inl f \<Rightarrow> Inl f
           | Inr (out, s2) \<Rightarrow>
               (case free s2 threads of
                  Inl f \<Rightarrow> Inl f
                | Inr s3 \<Rightarrow> Inr (0, out, s3))))"

subsection \<open>Reading registers\<close>

text \<open>
  The canonical register structs and the functions that fill them belong to \<^verbatim>\<open>isa.h\<close>:
  their sizes and their contents, as bytes, are parameters.
\<close>

record isa =
  sizeof_canonicalIntegerRegisters :: size_t
  sizeof_canonicalStateRegisters :: size_t
  sizeof_canonicalFloatingPointRegisters :: size_t
  isa_canonicalizeTeleIntegerRegisters :: "db_regs \<Rightarrow> byte list"
  isa_canonicalizeTeleStateRegisters :: "db_regs \<Rightarrow> byte list"
  isa_canonicalizeTeleFloatingPointRegisters :: "db_regs \<Rightarrow> byte list"

text \<open>The three Java byte arrays of the caller, and whether a Java exception is pending.\<close>

record java_arrays =
  integerRegisters :: "byte list"
  floatingPointRegisters :: "byte list"
  stateRegisters :: "byte list"
  exception_pending :: bool

text \<open>
  JNI's \<^verbatim>\<open>SetByteArrayRegion(env, array, 0, len, buf)\<close>: it copies \<open>len\<close> bytes to the start
  of the array, or throws \<^verbatim>\<open>ArrayIndexOutOfBoundsException\<close> (the value \<open>None\<close>) and copies
  nothing when the region does not lie inside the array.
\<close>

definition SetByteArrayRegion :: "byte list \<Rightarrow> jint \<Rightarrow> byte list \<Rightarrow> byte list option" where
  "SetByteArrayRegion array len buf =
     (if 0 \<le> sint len \<and> nat (sint len) \<le> length array
      then Some (take (nat (sint len)) buf @ drop (nat (sint len)) array)
      else None)"

definition nativeReadRegisters ::
  "env \<Rightarrow> macros \<Rightarrow> isa \<Rightarrow> state \<Rightarrow> jint \<Rightarrow> java_arrays \<Rightarrow> jint \<Rightarrow> jint \<Rightarrow> jint
     \<Rightarrow> fault + jboolean \<times> java_arrays \<times> state" where
  "nativeReadRegisters e k m s threadId arrays integerRegistersLength
       floatingPointRegistersLength stateRegistersLength =
     (if (scast integerRegistersLength :: size_t) > sizeof_canonicalIntegerRegisters m
      then Inr (0, arrays, s)
      else if (scast stateRegistersLength :: size_t) > sizeof_canonicalStateRegisters m
      then Inr (0, arrays, s)
      else if (scast floatingPointRegistersLength :: size_t)
                > sizeof_canonicalFloatingPointRegisters m
      then Inr (0, arrays, s)
      else
        (case checked_get_regs e k s threadId of
           Inl f \<Rightarrow> Inl f
         | Inr (None, s1) \<Rightarrow> Inr (0, arrays, s1)
         | Inr (Some r, s1) \<Rightarrow>
             (let a1 = (case SetByteArrayRegion (integerRegisters arrays) integerRegistersLength
                               (isa_canonicalizeTeleIntegerRegisters m r) of
                          None \<Rightarrow> arrays\<lparr>exception_pending := True\<rparr>
                        | Some bs \<Rightarrow> arrays\<lparr>integerRegisters := bs\<rparr>);
                  a2 = (case SetByteArrayRegion (stateRegisters a1) stateRegistersLength
                               (isa_canonicalizeTeleStateRegisters m r) of
                          None \<Rightarrow> a1\<lparr>exception_pending := True\<rparr>
                        | Some bs \<Rightarrow> a1\<lparr>stateRegisters := bs\<rparr>);
                  a3 = (case SetByteArrayRegion (floatingPointRegisters a2)
                               floatingPointRegistersLength
                               (isa_canonicalizeTeleFloatingPointRegisters m r) of
                          None \<Rightarrow> a2\<lparr>exception_pending := True\<rparr>
                        | Some bs \<Rightarrow> a2\<lparr>floatingPointRegisters := bs\<rparr>)
              in Inr (1, a3, s1))))"

subsection \<open>Watchpoints\<close>

text \<open>The \<^verbatim>\<open>int\<close> that \<^verbatim>\<open>db_activate_watchpoint\<close> returns is converted to a \<^verbatim>\<open>jboolean\<close>.\<close>

definition nativeActivateWatchpoint ::
  "env \<Rightarrow> macros \<Rightarrow> state \<Rightarrow> jlong \<Rightarrow> jlong \<Rightarrow> jboolean \<Rightarrow> jboolean \<Rightarrow> jboolean \<Rightarrow> jboolean
     \<Rightarrow> jboolean \<times> state" where
  "nativeActivateWatchpoint e k s address size' after read write exec =
     (let kind0 = (0 :: cint);
          kind1 = (if after \<noteq> 0 then kind0 OR AFTER_W k else kind0);
          kind2 = (if read \<noteq> 0 then kind1 OR READ_W k else kind1);
          kind3 = (if write \<noteq> 0 then kind2 OR WRITE_W k else kind2);
          kind = (if exec \<noteq> 0 then kind3 OR EXEC_W k else kind3)
      in if after = 0 then (0, s)
         else (ucast (db_activate_watchpoint_r e (calls s) address size' kind),
               s\<lparr>calls := calls s @ [E_db_activate_watchpoint address size' kind]\<rparr>))"

text \<open>The loop of \<^verbatim>\<open>get_wp_thread\<close> from index \<open>i\<close>.\<close>

function get_wp_thread_from :: "macros \<Rightarrow> state \<Rightarrow> int \<Rightarrow> fault + cint" where
  "get_wp_thread_from k s i =
     (if i < num_threads_at_rest s then
        (case elem s (threads_at_rest s) i of
           Inl f \<Rightarrow> Inl f
         | Inr t \<Rightarrow>
             if is_th_state t (WATCH_FLAG k) \<noteq> 0 then Inr (thread_id t)
             else get_wp_thread_from k s (i + 1))
      else Inr (- 1))"
  by pat_completeness auto
termination
  by (relation "measure (\<lambda>(k, s, i). nat (num_threads_at_rest s - i))") auto

declare get_wp_thread_from.simps [simp del]

definition get_wp_thread :: "macros \<Rightarrow> state \<Rightarrow> fault + cint" where
  "get_wp_thread k s = get_wp_thread_from k s 0"

definition nativeReadWatchpointAddress :: "env \<Rightarrow> macros \<Rightarrow> state \<Rightarrow> fault + jlong \<times> state" where
  "nativeReadWatchpointAddress e k s =
     (case get_wp_thread k s of
        Inl f \<Rightarrow> Inl f
      | Inr wp_thread \<Rightarrow>
          if wp_thread <s 0 then Inr (0, s)
          else Inr (fst (db_watchpoint_info_r e (calls s) wp_thread),
                    s\<lparr>calls := calls s @ [E_db_watchpoint_info wp_thread]\<rparr>))"

definition nativeReadWatchpointAccessCode :: "env \<Rightarrow> macros \<Rightarrow> state \<Rightarrow> fault + jint \<times> state" where
  "nativeReadWatchpointAccessCode e k s =
     (case get_wp_thread k s of
        Inl f \<Rightarrow> Inl f
      | Inr wp_thread \<Rightarrow>
          if wp_thread <s 0 then Inr (0, s)
          else (let kind = snd (db_watchpoint_info_r e (calls s) wp_thread)
                in Inr (kind AND NOT (AFTER_W k),
                        s\<lparr>calls := calls s @ [E_db_watchpoint_info wp_thread]\<rparr>)))"

subsection \<open>Concrete inputs\<close>

text \<open>
  A register block, an instruction set and a family of environments at which the
  theorems below are instantiated. In \<open>sample_env gs req\<close> the \<open>n\<close>-th call of
  \<^verbatim>\<open>db_gather_threads\<close> answers \<open>gs ! n\<close> (and \<^verbatim>\<open>NULL\<close> once \<open>gs\<close> is used up), only
  thread 1 has registers, and \<open>req\<close> says when a suspend-all request arrives.
\<close>

definition sample_regs :: db_regs where
  "sample_regs = \<lparr>rsp = 28672, rip = 16384, other_regs = []\<rparr>"

definition sample_isa :: isa where
  "sample_isa =
     \<lparr>sizeof_canonicalIntegerRegisters = 4,
      sizeof_canonicalStateRegisters = 2,
      sizeof_canonicalFloatingPointRegisters = 3,
      isa_canonicalizeTeleIntegerRegisters = (\<lambda>r. [1, 2, 3, 4]),
      isa_canonicalizeTeleStateRegisters = (\<lambda>r. [5, 6]),
      isa_canonicalizeTeleFloatingPointRegisters = (\<lambda>r. [7, 8, 9])\<rparr>"

definition count_gathers :: "event list \<Rightarrow> nat" where
  "count_gathers h = length (filter (\<lambda>ev. ev = E_db_gather_threads) h)"

definition sample_env :: "gather_result list \<Rightarrow> (event list \<Rightarrow> bool) \<Rightarrow> env" where
  "sample_env gs req =
     \<lparr>db_gather_threads_r =
        (\<lambda>h. if count_gathers h < length gs then gs ! count_gathers h else GNull 0),
      db_get_regs_r = (\<lambda>h t. if t = 1 then Some sample_regs else None),
      db_activate_watchpoint_r = (\<lambda>h a sz kd. 1),
      db_watchpoint_info_r = (\<lambda>h t. (4096, 5)),
      suspend_all_arrives = req,
      teleProcess_findThreadLocals_r = (\<lambda>tl ptl sp. sp)\<rparr>"

text \<open>A state whose cache holds the given threads in block 0.\<close>

definition rested_state :: "db_thread list \<Rightarrow> state" where
  "rested_state ts =
     \<lparr>terminated = 0, threads_at_rest = Some 0, num_threads_at_rest = int (length ts),
      suspend_all_request = 0, heap = [Some ts], calls = []\<rparr>"

section \<open>Properties\<close>

subsection \<open>The classifier\<close>

text \<open>
  C2. For every combination of thread state flags the classifier returns exactly one
  thread state, and it decides in the fixed order monitor wait, notify wait, join wait,
  sleeping, watchpoint, with suspended as the default: a state is returned exactly when
  its own flag is set and no flag of a higher priority is. In particular a thread whose
  flags are the sleeping and the watchpoint bit classifies as sleeping, whenever these
  two bits are not zero and do not overlap the three wait bits.
\<close>

theorem toThreadState_priority:
  fixes k :: macros and st :: cint
  shows "(\<exists>!ts. toThreadState k st = ts)
    \<and> (toThreadState k st = TS_MONITOR_WAIT \<longleftrightarrow>
         st AND AUX1_FLAG k \<noteq> 0)
    \<and> (toThreadState k st = TS_NOTIFY_WAIT \<longleftrightarrow>
         st AND AUX1_FLAG k = 0 \<and> st AND AUX2_FLAG k \<noteq> 0)
    \<and> (toThreadState k st = TS_JOIN_WAIT \<longleftrightarrow>
         st AND AUX1_FLAG k = 0 \<and> st AND AUX2_FLAG k = 0 \<and> st AND JOIN_FLAG k \<noteq> 0)
    \<and> (toThreadState k st = TS_SLEEPING \<longleftrightarrow>
         st AND AUX1_FLAG k = 0 \<and> st AND AUX2_FLAG k = 0 \<and> st AND JOIN_FLAG k = 0 \<and> st AND SLEEP_FLAG k \<noteq> 0)
    \<and> (toThreadState k st = TS_WATCHPOINT \<longleftrightarrow>
         st AND AUX1_FLAG k = 0 \<and> st AND AUX2_FLAG k = 0 \<and> st AND JOIN_FLAG k = 0 \<and> st AND SLEEP_FLAG k = 0 \<and> st AND WATCH_FLAG k \<noteq> 0)
    \<and> (toThreadState k st = TS_SUSPENDED \<longleftrightarrow>
         st AND AUX1_FLAG k = 0 \<and> st AND AUX2_FLAG k = 0 \<and> st AND JOIN_FLAG k = 0 \<and> st AND SLEEP_FLAG k = 0 \<and> st AND WATCH_FLAG k = 0)
    \<and> (SLEEP_FLAG k \<noteq> 0
         \<and> (SLEEP_FLAG k OR WATCH_FLAG k) AND (AUX1_FLAG k OR AUX2_FLAG k OR JOIN_FLAG k) = 0
         \<longrightarrow> toThreadState k (SLEEP_FLAG k OR WATCH_FLAG k) = TS_SLEEPING)"
proof -
  have pri:
    "toThreadState k st = TS_MONITOR_WAIT \<longleftrightarrow>
         st AND AUX1_FLAG k \<noteq> 0"
    "toThreadState k st = TS_NOTIFY_WAIT \<longleftrightarrow>
         st AND AUX1_FLAG k = 0 \<and> st AND AUX2_FLAG k \<noteq> 0"
    "toThreadState k st = TS_JOIN_WAIT \<longleftrightarrow>
         st AND AUX1_FLAG k = 0 \<and> st AND AUX2_FLAG k = 0 \<and> st AND JOIN_FLAG k \<noteq> 0"
    "toThreadState k st = TS_SLEEPING \<longleftrightarrow>
         st AND AUX1_FLAG k = 0 \<and> st AND AUX2_FLAG k = 0 \<and> st AND JOIN_FLAG k = 0 \<and> st AND SLEEP_FLAG k \<noteq> 0"
    "toThreadState k st = TS_WATCHPOINT \<longleftrightarrow>
         st AND AUX1_FLAG k = 0 \<and> st AND AUX2_FLAG k = 0 \<and> st AND JOIN_FLAG k = 0 \<and> st AND SLEEP_FLAG k = 0 \<and> st AND WATCH_FLAG k \<noteq> 0"
    "toThreadState k st = TS_SUSPENDED \<longleftrightarrow>
         st AND AUX1_FLAG k = 0 \<and> st AND AUX2_FLAG k = 0 \<and> st AND JOIN_FLAG k = 0 \<and> st AND SLEEP_FLAG k = 0 \<and> st AND WATCH_FLAG k = 0"
    by (simp_all add: toThreadState_def)
  have sleep: "toThreadState k (SLEEP_FLAG k OR WATCH_FLAG k) = TS_SLEEPING"
    if nz: "SLEEP_FLAG k \<noteq> 0"
      and dis: "(SLEEP_FLAG k OR WATCH_FLAG k) AND (AUX1_FLAG k OR AUX2_FLAG k OR JOIN_FLAG k) = 0"
  proof -
    let ?f = "SLEEP_FLAG k OR WATCH_FLAG k"
    have sub: "?f AND x = 0" if "x AND (AUX1_FLAG k OR AUX2_FLAG k OR JOIN_FLAG k) = x" for x
    proof -
      have "?f AND x = (?f AND (AUX1_FLAG k OR AUX2_FLAG k OR JOIN_FLAG k)) AND x"
        using that by (metis and.assoc and.commute)
      then show ?thesis using dis by simp
    qed
    have a1: "?f AND AUX1_FLAG k = 0"
      by (rule sub) (rule bit_eqI, auto simp: bit_simps)
    have a2: "?f AND AUX2_FLAG k = 0"
      by (rule sub) (rule bit_eqI, auto simp: bit_simps)
    have j: "?f AND JOIN_FLAG k = 0"
      by (rule sub) (rule bit_eqI, auto simp: bit_simps)
    have "?f AND SLEEP_FLAG k = SLEEP_FLAG k"
      by (rule bit_eqI) (auto simp: bit_simps)
    then have s: "?f AND SLEEP_FLAG k \<noteq> 0" using nz by simp
    show ?thesis using a1 a2 j s by (simp add: toThreadState_def)
  qed
  show ?thesis using pri sleep by blast
qed

theorem toThreadState_priority_witness:
  "SLEEP_FLAG sample_macros \<noteq> 0
   \<and> (SLEEP_FLAG sample_macros OR WATCH_FLAG sample_macros)
       AND (AUX1_FLAG sample_macros OR AUX2_FLAG sample_macros OR JOIN_FLAG sample_macros) = 0
   \<and> toThreadState sample_macros (SLEEP_FLAG sample_macros OR WATCH_FLAG sample_macros) = TS_SLEEPING
   \<and> toThreadState sample_macros 768 = TS_SLEEPING"
proof -
  have h: "SLEEP_FLAG sample_macros \<noteq> 0
    \<and> (SLEEP_FLAG sample_macros OR WATCH_FLAG sample_macros)
       AND (AUX1_FLAG sample_macros OR AUX2_FLAG sample_macros OR JOIN_FLAG sample_macros) = 0"
    by (simp add: sample_macros_def)
  have e: "SLEEP_FLAG sample_macros OR WATCH_FLAG sample_macros = 768"
    by (simp add: sample_macros_def)
  from toThreadState_priority [of sample_macros "0"] h
  have "toThreadState sample_macros (SLEEP_FLAG sample_macros OR WATCH_FLAG sample_macros) = TS_SLEEPING"
    by blast
  with h e show ?thesis by simp
qed

subsection \<open>The thread at a watchpoint\<close>

text \<open>
  On a cache that is in order (the pointer names a live block of as many threads as
  \<^verbatim>\<open>num_threads_at_rest\<close> says) the loop of \<^verbatim>\<open>get_wp_thread\<close> is a search for the first
  thread whose watchpoint bit is set.
\<close>

lemma get_wp_thread_from_valid:
  assumes c: "threads_at_rest s = Some a" "block_at s a = Some ts"
    "num_threads_at_rest s = int (length ts)"
  shows "get_wp_thread_from k s (int i) =
     Inr (case find (\<lambda>t. flags t AND WATCH_FLAG k \<noteq> 0) (drop i ts) of
            None \<Rightarrow> - 1 | Some t \<Rightarrow> thread_id t)"
proof (induction "length ts - i" arbitrary: i)
  case 0
  then have "drop i ts = []" by simp
  moreover have "\<not> int i < num_threads_at_rest s" using 0 c by simp
  ultimately show ?case by (subst get_wp_thread_from.simps) simp
next
  case (Suc n)
  then have lt: "i < length ts" by simp
  then have d: "drop i ts = ts ! i # drop (Suc i) ts" by (simp add: Cons_nth_drop_Suc)
  have el: "elem s (Some a) (int i) = Inr (ts ! i)"
    using c lt by (simp add: elem_def)
  have "n = length ts - Suc i" using Suc.hyps(2) by simp
  from Suc.hyps(1) [OF this]
  have ih: "get_wp_thread_from k s (int i + 1) =
     Inr (case find (\<lambda>t. flags t AND WATCH_FLAG k \<noteq> 0) (drop (Suc i) ts) of
            None \<Rightarrow> - 1 | Some t \<Rightarrow> thread_id t)"
    by (simp add: add.commute)
  show ?case
    by (subst get_wp_thread_from.simps) (simp add: lt c el ih d is_th_state_def is_state_def)
qed

lemma get_wp_thread_valid:
  assumes "threads_at_rest s = Some a" "block_at s a = Some ts"
    "num_threads_at_rest s = int (length ts)"
  shows "get_wp_thread k s =
     Inr (case find (\<lambda>t. flags t AND WATCH_FLAG k \<noteq> 0) ts of
            None \<Rightarrow> - 1 | Some t \<Rightarrow> thread_id t)"
  using get_wp_thread_from_valid [OF assms, of k 0] by (simp add: get_wp_thread_def)

lemma get_wp_thread_empty:
  "num_threads_at_rest s \<le> 0 \<Longrightarrow> get_wp_thread k s = Inr (- 1)"
  unfolding get_wp_thread_def by (subst get_wp_thread_from.simps) simp

lemma rested_state_cache:
  "threads_at_rest (rested_state ts) = Some 0"
  "block_at (rested_state ts) 0 = Some ts"
  "num_threads_at_rest (rested_state ts) = int (length ts)"
  by (simp_all add: rested_state_def block_at_def)

text \<open>
  C4, as the code has it. \<^verbatim>\<open>get_wp_thread\<close> takes no environment and returns no state: it
  reads the cached \<^verbatim>\<open>threads_at_rest\<close> only. On a cache that is in order it returns the id
  of the first thread whose watchpoint-hit bit is set, whatever the classifier makes of
  that thread's other bits, and \<open>-1\<close> when no cached thread has the bit; it returns \<open>-1\<close>
  as well when the cache holds no thread.
\<close>

theorem get_wp_thread_first_flagged:
  "(num_threads_at_rest s \<le> 0 \<longrightarrow> get_wp_thread k s = Inr (- 1))
   \<and> (threads_at_rest s = Some a \<and> block_at s a = Some ts
        \<and> num_threads_at_rest s = int (length ts) \<longrightarrow>
        get_wp_thread k s =
          Inr (case find (\<lambda>t. flags t AND WATCH_FLAG k \<noteq> 0) ts of
                 None \<Rightarrow> - 1 | Some t \<Rightarrow> thread_id t)
        \<and> ((\<forall>t \<in> set ts. flags t AND WATCH_FLAG k = 0) \<longrightarrow> get_wp_thread k s = Inr (- 1)))"
proof -
  have "get_wp_thread k s = Inr (- 1)"
    if "threads_at_rest s = Some a" "block_at s a = Some ts"
      "num_threads_at_rest s = int (length ts)" "\<forall>t \<in> set ts. flags t AND WATCH_FLAG k = 0"
  proof -
    have "find (\<lambda>t. flags t AND WATCH_FLAG k \<noteq> 0) ts = None"
      using that(4) by (simp add: find_None_iff)
    then show ?thesis using get_wp_thread_valid [OF that(1-3), of k] by simp
  qed
  then show ?thesis
    using get_wp_thread_empty [of s k] get_wp_thread_valid [of s a ts k] by blast
qed

theorem get_wp_thread_first_flagged_witness:
  "get_wp_thread sample_macros initial_state = Inr (- 1)
   \<and> get_wp_thread sample_macros
        (rested_state [\<lparr>thread_id = 3, flags = 16\<rparr>, \<lparr>thread_id = 4, flags = 512\<rparr>,
                       \<lparr>thread_id = 5, flags = 512\<rparr>]) = Inr 4
   \<and> get_wp_thread sample_macros (rested_state [\<lparr>thread_id = 3, flags = 16\<rparr>]) = Inr (- 1)"
proof -
  let ?ts = "[\<lparr>thread_id = 3, flags = 16\<rparr>, \<lparr>thread_id = 4, flags = 512\<rparr>,
              \<lparr>thread_id = 5, flags = 512\<rparr>]"
  let ?us = "[\<lparr>thread_id = 3, flags = (16 :: cint)\<rparr>]"
  have a: "num_threads_at_rest initial_state \<le> 0" by (simp add: initial_state_def)
  have b: "\<forall>t \<in> set ?us. flags t AND WATCH_FLAG sample_macros = 0"
    by (simp add: sample_macros_def)
  show ?thesis
    using a b rested_state_cache [of ?ts] rested_state_cache [of ?us]
      get_wp_thread_first_flagged [of initial_state sample_macros 0 ?us]
      get_wp_thread_first_flagged [of "rested_state ?us" sample_macros 0 ?us]
      get_wp_thread_first_flagged [of "rested_state ?ts" sample_macros 0 ?ts]
    by (simp add: sample_macros_def)
qed

text \<open>
  C4 as the spec words it fails: a cached thread whose flags are the sleeping and the
  watchpoint bit classifies as sleeping, not as watchpoint, and \<^verbatim>\<open>get_wp_thread\<close> still
  returns its id.
\<close>

theorem get_wp_thread_classified_counterexample:
  "toThreadState sample_macros (flags \<lparr>thread_id = 7, flags = 768\<rparr>) = TS_SLEEPING
   \<and> get_wp_thread sample_macros (rested_state [\<lparr>thread_id = 7, flags = 768\<rparr>]) = Inr 7"
  using get_wp_thread_valid [OF rested_state_cache, of sample_macros "[\<lparr>thread_id = 7, flags = 768\<rparr>]"]
  by (simp add: toThreadState_def sample_macros_def)

subsection \<open>Activating a watchpoint\<close>

text \<open>
  C5. When the \<^verbatim>\<open>after\<close> argument is false, \<^verbatim>\<open>nativeActivateWatchpoint\<close> returns false and
  leaves the state, and with it the trace of target-control calls, as it was: the
  activation primitive is not called. When \<^verbatim>\<open>after\<close> is true the primitive is called
  once, with the address and the size of the descriptor and with the kind that is the
  after bit together with the read, write and exec bits of exactly those arguments that
  are true; that kind contains the after bit, and the answer of the primitive, cut to a
  \<^verbatim>\<open>jboolean\<close>, is returned.
\<close>

theorem activate_requires_after:
  "(after = 0 \<longrightarrow> nativeActivateWatchpoint e k s address sz after rd wr ex = (0, s))
   \<and> (after \<noteq> 0 \<longrightarrow>
        nativeActivateWatchpoint e k s address sz after rd wr ex =
          (ucast (db_activate_watchpoint_r e (calls s) address sz
                    (((AFTER_W k OR (if rd \<noteq> 0 then READ_W k else 0))
                        OR (if wr \<noteq> 0 then WRITE_W k else 0))
                      OR (if ex \<noteq> 0 then EXEC_W k else 0))),
           s\<lparr>calls := calls s @
                  [E_db_activate_watchpoint address sz
                     (((AFTER_W k OR (if rd \<noteq> 0 then READ_W k else 0))
                         OR (if wr \<noteq> 0 then WRITE_W k else 0))
                       OR (if ex \<noteq> 0 then EXEC_W k else 0))]\<rparr>)
        \<and> (((AFTER_W k OR (if rd \<noteq> 0 then READ_W k else 0))
               OR (if wr \<noteq> 0 then WRITE_W k else 0))
             OR (if ex \<noteq> 0 then EXEC_W k else 0)) AND AFTER_W k = AFTER_W k)"
proof -
  have or_and: "(((AFTER_W k OR a) OR b) OR c) AND AFTER_W k = AFTER_W k" for a b c :: cint
    by (rule bit_eqI) (auto simp: bit_simps)
  let ?kind = "((AFTER_W k OR (if rd \<noteq> 0 then READ_W k else 0))
                  OR (if wr \<noteq> 0 then WRITE_W k else 0))
                OR (if ex \<noteq> 0 then EXEC_W k else 0)"
  have off: "nativeActivateWatchpoint e k s address sz after rd wr ex = (0, s)" if "after = 0"
    using that by (simp add: nativeActivateWatchpoint_def Let_def)
  have on: "nativeActivateWatchpoint e k s address sz after rd wr ex =
               (ucast (db_activate_watchpoint_r e (calls s) address sz ?kind),
                s\<lparr>calls := calls s @ [E_db_activate_watchpoint address sz ?kind]\<rparr>)"
    if "after \<noteq> 0"
    using that by (simp add: nativeActivateWatchpoint_def Let_def)
  have bit: "?kind AND AFTER_W k = AFTER_W k" by (rule or_and)
  show ?thesis using off on bit by blast
qed

theorem activate_requires_after_witness:
  "nativeActivateWatchpoint
       ((sample_env [] (\<lambda>h. False))\<lparr>db_activate_watchpoint_r := (\<lambda>h a sz kd. kd)\<rparr>)
       sample_macros initial_state 4096 8 0 1 1 0 = (0, initial_state)
   \<and> nativeActivateWatchpoint
       ((sample_env [] (\<lambda>h. False))\<lparr>db_activate_watchpoint_r := (\<lambda>h a sz kd. kd)\<rparr>)
       sample_macros initial_state 4096 8 1 0 1 0 =
     (5, initial_state\<lparr>calls := [E_db_activate_watchpoint 4096 8 5]\<rparr>)
   \<and> nativeActivateWatchpoint
       ((sample_env [] (\<lambda>h. False))\<lparr>db_activate_watchpoint_r := (\<lambda>h a sz kd. kd)\<rparr>)
       sample_macros initial_state 4096 8 1 1 0 1 =
     (11, initial_state\<lparr>calls := [E_db_activate_watchpoint 4096 8 11]\<rparr>)"
proof -
  let ?echo = "(sample_env [] (\<lambda>h. False))\<lparr>db_activate_watchpoint_r := (\<lambda>h a sz kd. kd)\<rparr>"
  have r1: "nativeActivateWatchpoint ?echo sample_macros initial_state 4096 8 0 1 1 0
      = (0, initial_state)"
    using activate_requires_after [where after = 0 and e = ?echo
      and k = sample_macros and s = initial_state and address = 4096 and sz = 8
      and rd = 1 and wr = 1 and ex = 0]
    by simp
  have r2: "nativeActivateWatchpoint ?echo sample_macros initial_state 4096 8 1 0 1 0
      = (5, initial_state\<lparr>calls := [E_db_activate_watchpoint 4096 8 5]\<rparr>)"
    using activate_requires_after [where after = 1 and e = ?echo
      and k = sample_macros and s = initial_state and address = 4096 and sz = 8
      and rd = 0 and wr = 1 and ex = 0]
    by (simp add: sample_macros_def initial_state_def)
  have r3: "nativeActivateWatchpoint ?echo sample_macros initial_state 4096 8 1 1 0 1
      = (11, initial_state\<lparr>calls := [E_db_activate_watchpoint 4096 8 11]\<rparr>)"
    using activate_requires_after [where after = 1 and e = ?echo
      and k = sample_macros and s = initial_state and address = 4096 and sz = 8
      and rd = 1 and wr = 0 and ex = 1]
    by (simp add: sample_macros_def initial_state_def)
  show ?thesis using r1 r2 r3 by simp
qed

subsection \<open>Reading registers\<close>

text \<open>
  A negative \<^verbatim>\<open>jint\<close> converted to \<^verbatim>\<open>size_t\<close> is at least \<open>2 ^ 63\<close>, so it exceeds any
  smaller size.
\<close>

lemma sint_jint_lower: "- (2 ^ 31) \<le> sint (x :: jint)"
  using sint_greater_eq [of x] by simp

lemma take_bit_64_negative:
  "k < 0 \<Longrightarrow> - (2 ^ 31) \<le> k \<Longrightarrow> take_bit 64 (k :: int) = k + 2 ^ 64"
proof -
  assume n: "k < 0" and l: "- (2 ^ 31) \<le> k"
  have "(k + 2 ^ 64) mod 2 ^ 64 = k + 2 ^ 64"
    by (rule mod_pos_pos_trivial) (use n l in simp_all)
  moreover have "(k + 2 ^ 64) mod 2 ^ 64 = k mod 2 ^ 64"
    by (rule mod_add_self2)
  ultimately have "k mod 2 ^ 64 = k + 2 ^ 64" by (simp only:)
  then show ?thesis unfolding take_bit_eq_mod .
qed

lemma uint_scast_jint: "uint (scast (x :: jint) :: size_t) = take_bit 64 (sint x)"
proof -
  have "uint (scast x :: size_t) = take_bit LENGTH(64) (sint x)"
    unfolding scast_eq by (rule uint_word_of_int_eq)
  then show ?thesis by simp
qed

lemma negative_length_exceeds:
  "sint (x :: jint) < 0 \<Longrightarrow> sz < 2 ^ 63 \<Longrightarrow> sz < (scast x :: size_t)"
proof -
  assume n: "sint x < 0" and s: "sz < 2 ^ 63"
  have "uint (scast x :: size_t) = sint x + 2 ^ 64"
    using uint_scast_jint [of x] take_bit_64_negative [OF n sint_jint_lower] by simp
  then have "2 ^ 63 \<le> uint (scast x :: size_t)" using sint_jint_lower [of x] by simp
  moreover have "uint sz < 2 ^ 63" using s by (simp add: word_less_def)
  ultimately show ?thesis by (simp add: word_less_def)
qed

text \<open>
  C3, as the code has it. The three tests of \<^verbatim>\<open>nativeReadRegisters\<close> reject a declared
  length that is larger than the canonical struct: then the function returns false,
  writes to no array and calls nothing. A negative length is compared as a \<^verbatim>\<open>size_t\<close> and
  so is rejected in the same way, the structs being smaller than \<open>2 ^ 63\<close> bytes. Lengths up to the size of the struct are accepted, and when the registers
  are found and the declared lengths fit the Java arrays, every array receives the first
  \<open>len\<close> bytes of its canonical region, where \<open>len\<close> is its declared length; the rest of the
  array keeps its old contents.
\<close>

theorem read_registers_length_check:
  "((scast il :: size_t) > sizeof_canonicalIntegerRegisters m
      \<or> (scast sl :: size_t) > sizeof_canonicalStateRegisters m
      \<or> (scast fl :: size_t) > sizeof_canonicalFloatingPointRegisters m
     \<longrightarrow> nativeReadRegisters e k m s threadId arrays il fl sl = Inr (0, arrays, s))
   \<and> ((scast il :: size_t) \<le> sizeof_canonicalIntegerRegisters m
      \<and> (scast sl :: size_t) \<le> sizeof_canonicalStateRegisters m
      \<and> (scast fl :: size_t) \<le> sizeof_canonicalFloatingPointRegisters m
      \<and> db_get_regs_r e (calls s) threadId = Some r
      \<and> 0 \<le> sint il \<and> nat (sint il) \<le> length (integerRegisters arrays)
      \<and> 0 \<le> sint sl \<and> nat (sint sl) \<le> length (stateRegisters arrays)
      \<and> 0 \<le> sint fl \<and> nat (sint fl) \<le> length (floatingPointRegisters arrays)
     \<longrightarrow> nativeReadRegisters e k m s threadId arrays il fl sl =
           Inr (1,
                arrays\<lparr>integerRegisters :=
                         take (nat (sint il)) (isa_canonicalizeTeleIntegerRegisters m r)
                           @ drop (nat (sint il)) (integerRegisters arrays),
                       stateRegisters :=
                         take (nat (sint sl)) (isa_canonicalizeTeleStateRegisters m r)
                           @ drop (nat (sint sl)) (stateRegisters arrays),
                       floatingPointRegisters :=
                         take (nat (sint fl)) (isa_canonicalizeTeleFloatingPointRegisters m r)
                           @ drop (nat (sint fl)) (floatingPointRegisters arrays)\<rparr>,
                s\<lparr>calls := calls s @ [E_db_get_regs threadId]\<rparr>))
   \<and> ((sint il < 0 \<or> sint sl < 0 \<or> sint fl < 0)
      \<and> sizeof_canonicalIntegerRegisters m < 2 ^ 63
      \<and> sizeof_canonicalStateRegisters m < 2 ^ 63
      \<and> sizeof_canonicalFloatingPointRegisters m < 2 ^ 63
     \<longrightarrow> nativeReadRegisters e k m s threadId arrays il fl sl = Inr (0, arrays, s))"
proof -
  have rej: "nativeReadRegisters e k m s threadId arrays il fl sl = Inr (0, arrays, s)"
    if "(scast il :: size_t) > sizeof_canonicalIntegerRegisters m
      \<or> (scast sl :: size_t) > sizeof_canonicalStateRegisters m
      \<or> (scast fl :: size_t) > sizeof_canonicalFloatingPointRegisters m"
    using that by (auto simp: nativeReadRegisters_def)
  have acc: "nativeReadRegisters e k m s threadId arrays il fl sl =
           Inr (1,
                arrays\<lparr>integerRegisters :=
                         take (nat (sint il)) (isa_canonicalizeTeleIntegerRegisters m r)
                           @ drop (nat (sint il)) (integerRegisters arrays),
                       stateRegisters :=
                         take (nat (sint sl)) (isa_canonicalizeTeleStateRegisters m r)
                           @ drop (nat (sint sl)) (stateRegisters arrays),
                       floatingPointRegisters :=
                         take (nat (sint fl)) (isa_canonicalizeTeleFloatingPointRegisters m r)
                           @ drop (nat (sint fl)) (floatingPointRegisters arrays)\<rparr>,
                s\<lparr>calls := calls s @ [E_db_get_regs threadId]\<rparr>)"
    if le: "(scast il :: size_t) \<le> sizeof_canonicalIntegerRegisters m"
      "(scast sl :: size_t) \<le> sizeof_canonicalStateRegisters m"
      "(scast fl :: size_t) \<le> sizeof_canonicalFloatingPointRegisters m"
      and r: "db_get_regs_r e (calls s) threadId = Some r"
      and fit: "0 \<le> sint il" "nat (sint il) \<le> length (integerRegisters arrays)"
        "0 \<le> sint sl" "nat (sint sl) \<le> length (stateRegisters arrays)"
        "0 \<le> sint fl" "nat (sint fl) \<le> length (floatingPointRegisters arrays)"
  proof -
    have g: "checked_get_regs e k s threadId = Inr (Some r, s\<lparr>calls := calls s @ [E_db_get_regs threadId]\<rparr>)"
      using r by (simp add: checked_get_regs_def Let_def)
    have nle: "\<not> (scast il :: size_t) > sizeof_canonicalIntegerRegisters m"
      "\<not> (scast sl :: size_t) > sizeof_canonicalStateRegisters m"
      "\<not> (scast fl :: size_t) > sizeof_canonicalFloatingPointRegisters m"
      using le by (simp_all add: not_less)
    show ?thesis
      unfolding nativeReadRegisters_def
      by (simp add: nle g fit SetByteArrayRegion_def Let_def)
  qed
  have neg: "nativeReadRegisters e k m s threadId arrays il fl sl = Inr (0, arrays, s)"
    if "sint il < 0 \<or> sint sl < 0 \<or> sint fl < 0"
      "sizeof_canonicalIntegerRegisters m < 2 ^ 63"
      "sizeof_canonicalStateRegisters m < 2 ^ 63"
      "sizeof_canonicalFloatingPointRegisters m < 2 ^ 63"
    using that negative_length_exceeds [of il "sizeof_canonicalIntegerRegisters m"]
      negative_length_exceeds [of sl "sizeof_canonicalStateRegisters m"]
      negative_length_exceeds [of fl "sizeof_canonicalFloatingPointRegisters m"]
    by (intro rej) blast
  show ?thesis using rej acc neg by blast
qed

theorem read_registers_length_check_witness:
  "nativeReadRegisters (sample_env [] (\<lambda>h. False)) sample_macros sample_isa initial_state 1
      \<lparr>integerRegisters = [0, 0, 0, 0, 0], floatingPointRegisters = [0, 0, 0],
        stateRegisters = [0, 0], exception_pending = False\<rparr> 5 3 2
    = Inr (0, \<lparr>integerRegisters = [0, 0, 0, 0, 0], floatingPointRegisters = [0, 0, 0],
        stateRegisters = [0, 0], exception_pending = False\<rparr>, initial_state)
   \<and> nativeReadRegisters (sample_env [] (\<lambda>h. False)) sample_macros sample_isa initial_state 1
      \<lparr>integerRegisters = [0, 0, 0, 0], floatingPointRegisters = [0, 0, 0],
        stateRegisters = [0, 0], exception_pending = False\<rparr> 4 3 1
    = Inr (1, \<lparr>integerRegisters = [1, 2, 3, 4], floatingPointRegisters = [7, 8, 9],
        stateRegisters = [5, 0], exception_pending = False\<rparr>,
        initial_state\<lparr>calls := [E_db_get_regs 1]\<rparr>)
   \<and> nativeReadRegisters (sample_env [] (\<lambda>h. False)) sample_macros sample_isa initial_state 1
      \<lparr>integerRegisters = [0, 0, 0, 0], floatingPointRegisters = [0, 0, 0],
        stateRegisters = [0, 0], exception_pending = False\<rparr> 4 (- 1) 2
    = Inr (0, \<lparr>integerRegisters = [0, 0, 0, 0], floatingPointRegisters = [0, 0, 0],
        stateRegisters = [0, 0], exception_pending = False\<rparr>, initial_state)"
proof -
  let ?env = "sample_env [] (\<lambda>h. False)"
  let ?big = "\<lparr>integerRegisters = [0, 0, 0, 0, 0 :: byte], floatingPointRegisters = [0, 0, 0 :: byte],
        stateRegisters = [0, 0 :: byte], exception_pending = False\<rparr>"
  let ?arr = "\<lparr>integerRegisters = [0, 0, 0, 0 :: byte], floatingPointRegisters = [0, 0, 0 :: byte],
        stateRegisters = [0, 0 :: byte], exception_pending = False\<rparr>"
  have long: "(scast (5 :: jint) :: size_t) > sizeof_canonicalIntegerRegisters sample_isa"
    by (simp add: sample_isa_def)
  have ok: "(scast (4 :: jint) :: size_t) \<le> sizeof_canonicalIntegerRegisters sample_isa"
    "(scast (1 :: jint) :: size_t) \<le> sizeof_canonicalStateRegisters sample_isa"
    "(scast (3 :: jint) :: size_t) \<le> sizeof_canonicalFloatingPointRegisters sample_isa"
    by (simp_all add: sample_isa_def)
  have regs: "db_get_regs_r ?env (calls initial_state) 1 = Some sample_regs"
    by (simp add: sample_env_def)
  have r1: "nativeReadRegisters ?env sample_macros sample_isa initial_state 1 ?big 5 3 2
      = Inr (0, ?big, initial_state)"
    using long
      read_registers_length_check [where il = 5 and sl = 2 and fl = 3 and m = sample_isa
        and e = ?env and k = sample_macros and s = initial_state and threadId = 1
        and arrays = ?big]
    by blast
  have r2: "nativeReadRegisters ?env sample_macros sample_isa initial_state 1 ?arr 4 3 1
      = Inr (1, ?arr\<lparr>integerRegisters :=
                         take (nat (sint (4 :: jint)))
                           (isa_canonicalizeTeleIntegerRegisters sample_isa sample_regs)
                           @ drop (nat (sint (4 :: jint))) (integerRegisters ?arr),
                       stateRegisters :=
                         take (nat (sint (1 :: jint)))
                           (isa_canonicalizeTeleStateRegisters sample_isa sample_regs)
                           @ drop (nat (sint (1 :: jint))) (stateRegisters ?arr),
                       floatingPointRegisters :=
                         take (nat (sint (3 :: jint)))
                           (isa_canonicalizeTeleFloatingPointRegisters sample_isa sample_regs)
                           @ drop (nat (sint (3 :: jint))) (floatingPointRegisters ?arr)\<rparr>,
                initial_state\<lparr>calls := calls initial_state @ [E_db_get_regs 1]\<rparr>)"
    using ok regs
      read_registers_length_check [where il = 4 and sl = 1 and fl = 3 and m = sample_isa
        and e = ?env and k = sample_macros and s = initial_state and threadId = 1
        and arrays = ?arr and r = sample_regs]
    by simp
  have small: "sizeof_canonicalIntegerRegisters sample_isa < 2 ^ 63"
    "sizeof_canonicalStateRegisters sample_isa < 2 ^ 63"
    "sizeof_canonicalFloatingPointRegisters sample_isa < 2 ^ 63"
    by (simp_all add: sample_isa_def)
  have minus: "sint (- 1 :: jint) < 0" by simp
  have r3: "nativeReadRegisters ?env sample_macros sample_isa initial_state 1 ?arr 4 (- 1) 2
      = Inr (0, ?arr, initial_state)"
    using small minus
      read_registers_length_check [where il = 4 and sl = 2 and fl = "- 1" and m = sample_isa
        and e = ?env and k = sample_macros and s = initial_state and threadId = 1
        and arrays = ?arr]
    by blast
  show ?thesis
    using r1 r2 r3 by (simp add: sample_isa_def initial_state_def)
qed

text \<open>
  C3 as the spec words it fails: with a declared length of 2 for the integer region, whose
  canonical size is 4, the call succeeds and writes two bytes of the region.
\<close>

theorem read_registers_shorter_counterexample:
  "nativeReadRegisters (sample_env [] (\<lambda>h. False)) sample_macros sample_isa initial_state 1
      \<lparr>integerRegisters = [0, 0, 0, 0], floatingPointRegisters = [0, 0, 0],
        stateRegisters = [0, 0], exception_pending = False\<rparr> 2 3 2
    = Inr (1, \<lparr>integerRegisters = [1, 2, 0, 0], floatingPointRegisters = [7, 8, 9],
        stateRegisters = [5, 6], exception_pending = False\<rparr>,
        initial_state\<lparr>calls := [E_db_get_regs 1]\<rparr>)
   \<and> (scast (2 :: jint) :: size_t) < sizeof_canonicalIntegerRegisters sample_isa"
  by (simp add: nativeReadRegisters_def sample_isa_def sample_env_def checked_get_regs_def Let_def
      SetByteArrayRegion_def initial_state_def)

subsection \<open>Reading the watchpoint that was hit\<close>

text \<open>
  C6. Whatever kind \<^verbatim>\<open>db_watchpoint_info\<close> stores for the thread at the watchpoint,
  \<^verbatim>\<open>nativeReadWatchpointAccessCode\<close> returns it with the after bit cleared, and no value
  that the function returns contains the after bit.
\<close>

theorem access_code_strips_after:
  "(nativeReadWatchpointAccessCode e k s = Inr (r, s') \<longrightarrow> r AND AFTER_W k = 0)
   \<and> (get_wp_thread k s = Inr t \<and> \<not> t <s 0 \<longrightarrow>
        nativeReadWatchpointAccessCode e k s =
          Inr (snd (db_watchpoint_info_r e (calls s) t) AND NOT (AFTER_W k),
               s\<lparr>calls := calls s @ [E_db_watchpoint_info t]\<rparr>))"
proof -
  have strip: "(x AND NOT (AFTER_W k)) AND AFTER_W k = 0" for x :: cint
    by (rule bit_eqI) (auto simp: bit_simps)
  show ?thesis
    by (auto simp: nativeReadWatchpointAccessCode_def Let_def strip split: sum.splits if_splits)
qed

theorem access_code_strips_after_witness:
  "(\<exists>s'. nativeReadWatchpointAccessCode (sample_env [] (\<lambda>h. False)) sample_macros
        (rested_state [\<lparr>thread_id = 4, flags = 512\<rparr>]) = Inr (4, s'))
   \<and> snd (db_watchpoint_info_r (sample_env [] (\<lambda>h. False)) [] 4) = 5
   \<and> (5 :: cint) AND AFTER_W sample_macros \<noteq> 0
   \<and> (4 :: cint) AND AFTER_W sample_macros = 0"
proof -
  let ?s = "rested_state [\<lparr>thread_id = 4, flags = 512\<rparr>]"
  let ?e = "sample_env [] (\<lambda>h. False)"
  have g: "get_wp_thread sample_macros ?s = Inr 4"
    using get_wp_thread_valid [OF rested_state_cache, of sample_macros "[\<lparr>thread_id = 4, flags = 512\<rparr>]"]
    by (simp add: sample_macros_def)
  have n: "\<not> (4 :: cint) <s 0" by (simp add: word_sless_alt)
  have c: "calls ?s = []" by (simp add: rested_state_def)
  from access_code_strips_after [of ?e sample_macros ?s _ _ 4] g n
  have "nativeReadWatchpointAccessCode ?e sample_macros ?s =
          Inr (snd (db_watchpoint_info_r ?e (calls ?s) 4) AND NOT (AFTER_W sample_macros),
               ?s\<lparr>calls := calls ?s @ [E_db_watchpoint_info 4]\<rparr>)"
    by blast
  then show ?thesis
    by (simp add: c sample_env_def sample_macros_def)
qed

text \<open>
  C10. When the cache holds no thread, or is in order and holds no thread with the
  watchpoint bit, both readers return 0 and leave the state and the trace as they were:
  \<^verbatim>\<open>db_watchpoint_info\<close> is not called. The same 0 is returned when a thread is at a
  watchpoint and the target reports the address 0 and no kind but the after bit.
\<close>

theorem no_watchpoint_thread_returns_zero:
  "(num_threads_at_rest s \<le> 0
      \<or> (\<exists>a ts. threads_at_rest s = Some a \<and> block_at s a = Some ts
            \<and> num_threads_at_rest s = int (length ts)
            \<and> (\<forall>t \<in> set ts. flags t AND WATCH_FLAG k = 0))
     \<longrightarrow> nativeReadWatchpointAddress e k s = Inr (0, s)
         \<and> nativeReadWatchpointAccessCode e k s = Inr (0, s))
   \<and> (get_wp_thread k s = Inr t \<and> \<not> t <s 0
        \<and> db_watchpoint_info_r e (calls s) t = (0, AFTER_W k)
     \<longrightarrow> nativeReadWatchpointAddress e k s =
           Inr (0, s\<lparr>calls := calls s @ [E_db_watchpoint_info t]\<rparr>)
         \<and> nativeReadWatchpointAccessCode e k s =
           Inr (0, s\<lparr>calls := calls s @ [E_db_watchpoint_info t]\<rparr>))"
proof -
  have none: "get_wp_thread k s = Inr (- 1)"
    if "num_threads_at_rest s \<le> 0
      \<or> (\<exists>a ts. threads_at_rest s = Some a \<and> block_at s a = Some ts
            \<and> num_threads_at_rest s = int (length ts)
            \<and> (\<forall>t \<in> set ts. flags t AND WATCH_FLAG k = 0))"
    using that
  proof
    assume "num_threads_at_rest s \<le> 0"
    then show ?thesis by (rule get_wp_thread_empty)
  next
    assume "\<exists>a ts. threads_at_rest s = Some a \<and> block_at s a = Some ts
            \<and> num_threads_at_rest s = int (length ts)
            \<and> (\<forall>t \<in> set ts. flags t AND WATCH_FLAG k = 0)"
    then obtain a ts where c: "threads_at_rest s = Some a" "block_at s a = Some ts"
      "num_threads_at_rest s = int (length ts)"
      and nw: "\<forall>t \<in> set ts. flags t AND WATCH_FLAG k = 0" by blast
    have "find (\<lambda>t. flags t AND WATCH_FLAG k \<noteq> 0) ts = None"
      using nw by (simp add: find_None_iff)
    then show ?thesis using get_wp_thread_valid [OF c, of k] by simp
  qed
  have neg: "(- 1 :: cint) <s 0" by (simp add: word_sless_alt)
  have strip: "AFTER_W k AND NOT (AFTER_W k) = 0"
    by (rule bit_eqI) (auto simp: bit_simps)
  show ?thesis
    using none neg
    by (auto simp: nativeReadWatchpointAddress_def nativeReadWatchpointAccessCode_def Let_def strip)
qed


theorem no_watchpoint_thread_returns_zero_witness:
  "nativeReadWatchpointAddress (sample_env [] (\<lambda>h. False)) sample_macros initial_state
      = Inr (0, initial_state)
   \<and> nativeReadWatchpointAccessCode (sample_env [] (\<lambda>h. False)) sample_macros
        (rested_state [\<lparr>thread_id = 3, flags = 16\<rparr>])
      = Inr (0, rested_state [\<lparr>thread_id = 3, flags = 16\<rparr>])
   \<and> nativeReadWatchpointAddress
        ((sample_env [] (\<lambda>h. False))\<lparr>db_watchpoint_info_r := (\<lambda>h t. (0, 1))\<rparr>) sample_macros
        (rested_state [\<lparr>thread_id = 4, flags = 512\<rparr>])
      = Inr (0, (rested_state [\<lparr>thread_id = 4, flags = 512\<rparr>])\<lparr>calls := [E_db_watchpoint_info 4]\<rparr>)"
proof -
  let ?env = "sample_env [] (\<lambda>h. False)"
  let ?zenv = "?env\<lparr>db_watchpoint_info_r := (\<lambda>h t. (0, 1))\<rparr>"
  let ?us = "[\<lparr>thread_id = 3, flags = (16 :: cint)\<rparr>]"
  let ?ws = "[\<lparr>thread_id = 4, flags = (512 :: cint)\<rparr>]"
  have a: "num_threads_at_rest initial_state \<le> 0" by (simp add: initial_state_def)
  have b: "\<exists>a ts. threads_at_rest (rested_state ?us) = Some a \<and> block_at (rested_state ?us) a = Some ts
            \<and> num_threads_at_rest (rested_state ?us) = int (length ts)
            \<and> (\<forall>t \<in> set ts. flags t AND WATCH_FLAG sample_macros = 0)"
    using rested_state_cache [of ?us] by (simp add: sample_macros_def)
  have g: "get_wp_thread sample_macros (rested_state ?ws) = Inr 4"
    using get_wp_thread_valid [OF rested_state_cache, of sample_macros ?ws]
    by (simp add: sample_macros_def)
  have n: "\<not> (4 :: cint) <s 0" by (simp add: word_sless_alt)
  have i: "db_watchpoint_info_r ?zenv (calls (rested_state ?ws)) 4 = (0, AFTER_W sample_macros)"
    by (simp add: sample_macros_def)
  have c: "calls (rested_state ?ws) = []" by (simp add: rested_state_def)
  have r1: "nativeReadWatchpointAddress ?env sample_macros initial_state = Inr (0, initial_state)"
    using a no_watchpoint_thread_returns_zero [where s = initial_state and k = sample_macros and e = ?env]
    by blast
  have r2: "nativeReadWatchpointAccessCode ?env sample_macros (rested_state ?us)
      = Inr (0, rested_state ?us)"
    using b no_watchpoint_thread_returns_zero [where s = "rested_state ?us" and k = sample_macros
        and e = ?env]
    by blast
  have r3: "nativeReadWatchpointAddress ?zenv sample_macros (rested_state ?ws)
      = Inr (0, (rested_state ?ws)\<lparr>calls := calls (rested_state ?ws) @ [E_db_watchpoint_info 4]\<rparr>)"
    using g n i no_watchpoint_thread_returns_zero [where s = "rested_state ?ws" and k = sample_macros
        and e = ?zenv and t = 4]
    by blast
  show ?thesis using r1 r2 r3 c by simp
qed

lemma count_gathers_simps:
  "count_gathers [] = 0"
  "count_gathers (ev # h) = (if ev = E_db_gather_threads then Suc (count_gathers h) else count_gathers h)"
  by (simp_all add: count_gathers_def)

subsection \<open>Gathering threads when a register lookup fails\<close>

text \<open>
  C9 does not hold of the code. The target lists thread 2 and then has no registers for
  it: \<^verbatim>\<open>checked_get_regs\<close> returns \<^verbatim>\<open>NULL\<close> and \<^verbatim>\<open>nativeGatherThreads\<close> reads
  \<^verbatim>\<open>db_regs->rsp\<close> through it. \<^verbatim>\<open>nativeReadRegisters\<close>, in the same situation, tests the
  pointer and returns false.
\<close>

theorem nativeGatherThreads_null_regs:
  "nativeGatherThreads (sample_env [GThreads [\<lparr>thread_id = 2, flags = 1\<rparr>]] (\<lambda>h. False))
      sample_macros initial_state 0 0 = Inl NullDereference
   \<and> db_get_regs_r (sample_env [GThreads [\<lparr>thread_id = 2, flags = 1\<rparr>]] (\<lambda>h. False))
        [E_db_gather_threads] 2 = None
   \<and> (\<exists>s'. nativeReadRegisters (sample_env [GThreads [\<lparr>thread_id = 2, flags = 1\<rparr>]] (\<lambda>h. False))
       sample_macros sample_isa initial_state 2
       \<lparr>integerRegisters = [0, 0, 0, 0], floatingPointRegisters = [0, 0, 0],
         stateRegisters = [0, 0], exception_pending = False\<rparr> 4 3 2
     = Inr (0, \<lparr>integerRegisters = [0, 0, 0, 0], floatingPointRegisters = [0, 0, 0],
         stateRegisters = [0, 0], exception_pending = False\<rparr>, s'))"
proof -
  let ?env = "sample_env [GThreads [\<lparr>thread_id = 2, flags = 1\<rparr>]] (\<lambda>h. False)"
  have tr: "trace_threads k s None 0 = Inr []" for k s
    unfolding trace_threads_def by (subst trace_threads_from.simps) simp
  have a: "nativeGatherThreads ?env sample_macros initial_state 0 0 = Inl NullDereference"
    unfolding nativeGatherThreads_def
    apply (subst gather_from.simps)
    apply (simp add: sample_env_def initial_state_def db_gather_threads_def malloc_block_def
        count_gathers_simps elem_def block_at_def checked_get_regs_def Let_def
        gather_and_trace_threads_def tr free_def)
    done
  have b: "db_get_regs_r ?env [E_db_gather_threads] 2 = None"
    by (simp add: sample_env_def)
  have c: "\<exists>s'. nativeReadRegisters ?env sample_macros sample_isa initial_state 2
       \<lparr>integerRegisters = [0, 0, 0, 0], floatingPointRegisters = [0, 0, 0],
         stateRegisters = [0, 0], exception_pending = False\<rparr> 4 3 2
     = Inr (0, \<lparr>integerRegisters = [0, 0, 0, 0], floatingPointRegisters = [0, 0, 0],
         stateRegisters = [0, 0], exception_pending = False\<rparr>, s')"
    unfolding nativeReadRegisters_def
    apply (simp add: sample_env_def sample_isa_def initial_state_def db_gather_threads_def malloc_block_def
        count_gathers_simps checked_get_regs_def Let_def
        gather_and_trace_threads_def free_def block_at_def trace_threads_def)
    apply (subst trace_threads_from.simps)
    apply (simp add: elem_def block_at_def)
    apply (subst trace_threads_from.simps)
    apply (simp add: free_def block_at_def)
    done
  show ?thesis using a b c by blast
qed

subsection \<open>The polling loop\<close>

text \<open>
  On the array that \<^verbatim>\<open>db_gather_threads\<close> has just returned, tracing cannot fault and the
  scan for a debug-suspended thread is a test of all its flags.
\<close>

lemma trace_threads_from_valid:
  assumes b: "block_at s a = Some ts"
  shows "trace_threads_from k s (Some a) (int (length ts)) (int i) =
           Inr (map (trace_thread k) (drop i ts))"
proof (induction "length ts - i" arbitrary: i)
  case 0
  then show ?case by (subst trace_threads_from.simps) simp
next
  case (Suc n)
  then have lt: "i < length ts" by simp
  then have d: "drop i ts = ts ! i # drop (Suc i) ts" by (simp add: Cons_nth_drop_Suc)
  have el: "elem s (Some a) (int i) = Inr (ts ! i)"
    using b lt by (simp add: elem_def)
  have "n = length ts - Suc i" using Suc.hyps(2) by simp
  from Suc.hyps(1) [OF this]
  have ih: "trace_threads_from k s (Some a) (int (length ts)) (int i + 1) =
           Inr (map (trace_thread k) (drop (Suc i) ts))"
    by (simp add: add.commute)
  show ?case
    by (subst trace_threads_from.simps) (simp add: lt el ih d)
qed

lemma trace_threads_valid:
  "block_at s a = Some ts \<Longrightarrow>
     trace_threads k s (Some a) (int (length ts)) = Inr (map (trace_thread k) ts)"
  using trace_threads_from_valid [of s a ts k 0] by (simp add: trace_threads_def)

lemma scan_debug_suspend_valid:
  assumes b: "block_at s a = Some ts"
  shows "scan_debug_suspend k s (Some a) (int (length ts)) (int i) =
           Inr (if \<exists>t \<in> set (drop i ts). flags t AND DEBUG_SUSPEND_FLAG k \<noteq> 0
                then s\<lparr>suspend_all_request := 1\<rparr> else s)"
proof (induction "length ts - i" arbitrary: i)
  case 0
  then show ?case by (subst scan_debug_suspend.simps) simp
next
  case (Suc n)
  then have lt: "i < length ts" by simp
  then have d: "drop i ts = ts ! i # drop (Suc i) ts" by (simp add: Cons_nth_drop_Suc)
  have el: "elem s (Some a) (int i) = Inr (ts ! i)"
    using b lt by (simp add: elem_def)
  have "n = length ts - Suc i" using Suc.hyps(2) by simp
  from Suc.hyps(1) [OF this]
  have ih: "scan_debug_suspend k s (Some a) (int (length ts)) (int i + 1) =
           Inr (if \<exists>t \<in> set (drop (Suc i) ts). flags t AND DEBUG_SUSPEND_FLAG k \<noteq> 0
                then s\<lparr>suspend_all_request := 1\<rparr> else s)"
    by (simp add: add.commute)
  show ?case
    by (subst scan_debug_suspend.simps) (simp add: lt el ih d is_th_state_def is_state_def)
qed

lemma db_gather_threads_GThreads:
  "db_gather_threads_r e (calls s) = GThreads ts \<Longrightarrow>
     db_gather_threads e s =
       ((Some (length (heap s)), int (length ts)),
        s\<lparr>heap := heap s @ [Some ts], calls := calls s @ [E_db_gather_threads]\<rparr>)"
  by (simp add: db_gather_threads_def malloc_block_def Let_def)

lemma db_gather_threads_GNull:
  "db_gather_threads_r e (calls s) = GNull n \<Longrightarrow>
     db_gather_threads e s = ((None, n), s\<lparr>calls := calls s @ [E_db_gather_threads]\<rparr>)"
  by (simp add: db_gather_threads_def Let_def)

text \<open>One turn of the loop, with the rest of the loop as \<open>f\<close>.\<close>

lemma poll_turn:
  fixes f :: "env \<Rightarrow> macros \<Rightarrow> state \<Rightarrow> 64 word \<Rightarrow> (fault + poll_exit \<times> state) option"
  assumes z: "suspend_all_request s0 = 0"
  shows "(case db_gather_threads e s0 of
              ((threads, num_threads), s1) \<Rightarrow>
                if threads = None
                then Some (Inr (Domain_terminated, (db_signoff s1)\<lparr>terminated := 1\<rparr>))
                else
                  (case trace_threads k s1 threads num_threads of
                     Inl f \<Rightarrow> Some (Inl f)
                   | Inr ls \<Rightarrow>
                       (case scan_debug_suspend k s1 threads num_threads 0 of
                          Inl f \<Rightarrow> Some (Inl f)
                        | Inr s2 \<Rightarrow>
                            (case free s2 threads of
                               Inl f \<Rightarrow> Some (Inl f)
                             | Inr s3 \<Rightarrow>
                                 (let s4 = read_suspend_all_request e s3
                                  in if suspend_all_request s4 = 0
                                     then f e k (usleep (ucast (sleep_time + 2000)) s4)
                                            (sleep_time + 2000)
                                     else f e k s4 sleep_time))))) =
     (case db_gather_threads_r e (calls s0) of
        GNull n \<Rightarrow>
          Some (Inr (Domain_terminated,
                     s0\<lparr>terminated := 1,
                        calls := calls s0 @ [E_db_gather_threads, E_db_signoff]\<rparr>))
      | GThreads ts \<Rightarrow>
          (let s4 = read_suspend_all_request e
                      (s0\<lparr>suspend_all_request :=
                             (if \<exists>t \<in> set ts. flags t AND DEBUG_SUSPEND_FLAG k \<noteq> 0
                              then 1 else 0),
                           heap := heap s0 @ [None],
                           calls := calls s0 @ [E_db_gather_threads]\<rparr>)
           in if suspend_all_request s4 = 0
              then f e k (usleep (ucast (sleep_time + 2000)) s4) (sleep_time + 2000)
              else f e k s4 sleep_time))"
proof (cases "db_gather_threads_r e (calls s0)")
  case (GNull n)
  then show ?thesis
    by (simp add: db_gather_threads_GNull db_signoff_def)
next
  case (GThreads ts)
  let ?s1 = "s0\<lparr>heap := heap s0 @ [Some ts], calls := calls s0 @ [E_db_gather_threads]\<rparr>"
  have b: "block_at ?s1 (length (heap s0)) = Some ts" by (simp add: block_at_def)
  have t: "trace_threads k ?s1 (Some (length (heap s0))) (int (length ts)) = Inr (map (trace_thread k) ts)"
    by (rule trace_threads_valid [OF b])
  have sc: "scan_debug_suspend k ?s1 (Some (length (heap s0))) (int (length ts)) 0 =
           Inr (if \<exists>t \<in> set ts. flags t AND DEBUG_SUSPEND_FLAG k \<noteq> 0
                then ?s1\<lparr>suspend_all_request := 1\<rparr> else ?s1)"
    using scan_debug_suspend_valid [OF b, of k 0] by simp
  have e1: "s0\<lparr>calls := c, suspend_all_request := 1, heap := h\<rparr> =
            s0\<lparr>suspend_all_request := 1, heap := h, calls := c\<rparr>" for c h
    by (cases s0) simp
  have e2: "s0\<lparr>calls := c, heap := h\<rparr> =
            s0\<lparr>suspend_all_request := 0, heap := h, calls := c\<rparr>" for c h
    using z by (cases s0) simp
  show ?thesis
    by (simp add: GThreads db_gather_threads_GThreads t sc free_def block_at_def e1 e2)
qed

lemma poll_unfold:
  "poll e k s sleep_time =
     (let s0 = read_suspend_all_request e s
      in if suspend_all_request s0 \<noteq> 0 then Some (Inr (Loop_left, s0))
         else
     (case db_gather_threads_r e (calls s0) of
        GNull n \<Rightarrow>
          Some (Inr (Domain_terminated,
                     s0\<lparr>terminated := 1,
                        calls := calls s0 @ [E_db_gather_threads, E_db_signoff]\<rparr>))
      | GThreads ts \<Rightarrow>
          (let s4 = read_suspend_all_request e
                      (s0\<lparr>suspend_all_request :=
                             (if \<exists>t \<in> set ts. flags t AND DEBUG_SUSPEND_FLAG k \<noteq> 0
                              then 1 else 0),
                           heap := heap s0 @ [None],
                           calls := calls s0 @ [E_db_gather_threads]\<rparr>)
           in if suspend_all_request s4 = 0
              then poll e k (usleep (ucast (sleep_time + 2000)) s4) (sleep_time + 2000)
              else poll e k s4 sleep_time)))"
  by (subst poll.simps) (simp add: Let_def poll_turn)

lemma read_suspend_all_request_fields:
  "terminated (read_suspend_all_request e s) = terminated s"
  "threads_at_rest (read_suspend_all_request e s) = threads_at_rest s"
  "num_threads_at_rest (read_suspend_all_request e s) = num_threads_at_rest s"
  "heap (read_suspend_all_request e s) = heap s"
  "calls (read_suspend_all_request e s) = calls s"
  by (simp_all add: read_suspend_all_request_def nativeSuspendAll_def)

lemma usleep_fields:
  "terminated (usleep d s) = terminated s"
  "threads_at_rest (usleep d s) = threads_at_rest s"
  "num_threads_at_rest (usleep d s) = num_threads_at_rest s"
  "suspend_all_request (usleep d s) = suspend_all_request s"
  "heap (usleep d s) = heap s"
  "calls (usleep d s) = calls s @ [E_usleep d]"
  by (simp_all add: usleep_def)

text \<open>
  What every exit of the loop leaves behind: the cache variables are untouched, every
  array the loop allocated is freed again, the only calls are collections, sleeps and at
  most the final sign-off.
\<close>

lemma poll_result:
  assumes "poll e k s t = Some y"
  shows "\<exists>x s' m h. y = Inr (x, s')
     \<and> threads_at_rest s' = threads_at_rest s
     \<and> num_threads_at_rest s' = num_threads_at_rest s
     \<and> heap s' = heap s @ replicate m None
     \<and> calls s' = calls s @ h
     \<and> E_db_resume_all \<notin> set h \<and> E_db_suspend_all \<notin> set h
     \<and> (x = Domain_terminated \<longrightarrow>
          terminated s' = 1
          \<and> (\<exists>h' n. calls s' = h' @ [E_db_gather_threads, E_db_signoff]
                 \<and> db_gather_threads_r e h' = GNull n))
     \<and> (x = Loop_left \<longrightarrow>
          terminated s' = terminated s \<and> suspend_all_request s' \<noteq> 0
          \<and> E_db_signoff \<notin> set h)"
proof -
  define Q where "Q e s y \<longleftrightarrow> (\<exists>x s' m h. y = Inr (x, s')
     \<and> threads_at_rest s' = threads_at_rest s
     \<and> num_threads_at_rest s' = num_threads_at_rest s
     \<and> heap s' = heap s @ replicate m None
     \<and> calls s' = calls s @ h
     \<and> E_db_resume_all \<notin> set h \<and> E_db_suspend_all \<notin> set h
     \<and> (x = Domain_terminated \<longrightarrow>
          terminated s' = 1
          \<and> (\<exists>h' n. calls s' = h' @ [E_db_gather_threads, E_db_signoff]
                 \<and> db_gather_threads_r e h' = GNull n))
     \<and> (x = Loop_left \<longrightarrow>
          terminated s' = terminated s \<and> suspend_all_request s' \<noteq> 0
          \<and> E_db_signoff \<notin> set h))"
    for e :: env and s :: state and y :: "fault + poll_exit \<times> state"
  have later: "Q e s y"
    if q: "Q e s2 y" and c: "threads_at_rest s2 = threads_at_rest s"
      "num_threads_at_rest s2 = num_threads_at_rest s" "terminated s2 = terminated s"
      and hp: "heap s2 = heap s @ [None]"
      and cl: "calls s2 = calls s @ h0" "E_db_resume_all \<notin> set h0" "E_db_suspend_all \<notin> set h0"
        "E_db_signoff \<notin> set h0"
    for e s s2 y h0
  proof -
    from q obtain x s' m h where y: "y = Inr (x, s')"
      and a: "threads_at_rest s' = threads_at_rest s2"
        "num_threads_at_rest s' = num_threads_at_rest s2"
      and h: "heap s' = heap s2 @ replicate m None"
      and l: "calls s' = calls s2 @ h" "E_db_resume_all \<notin> set h" "E_db_suspend_all \<notin> set h"
      and dt: "x = Domain_terminated \<longrightarrow>
          terminated s' = 1
          \<and> (\<exists>h' n. calls s' = h' @ [E_db_gather_threads, E_db_signoff]
                 \<and> db_gather_threads_r e h' = GNull n)"
      and ll: "x = Loop_left \<longrightarrow>
          terminated s' = terminated s2 \<and> suspend_all_request s' \<noteq> 0
          \<and> E_db_signoff \<notin> set h"
      unfolding Q_def by blast
    have h2: "heap s' = heap s @ replicate (Suc m) None"
      using h hp by (simp add: replicate_app_Cons_same)
    have l2: "calls s' = calls s @ (h0 @ h)" using l cl by simp
    have l3: "E_db_resume_all \<notin> set (h0 @ h)" "E_db_suspend_all \<notin> set (h0 @ h)"
      using l cl by simp_all
    have ll2: "x = Loop_left \<longrightarrow>
          terminated s' = terminated s \<and> suspend_all_request s' \<noteq> 0
          \<and> E_db_signoff \<notin> set (h0 @ h)"
      using ll c cl by simp
    have a2: "threads_at_rest s' = threads_at_rest s"
        "num_threads_at_rest s' = num_threads_at_rest s"
      using a c by simp_all
    show ?thesis
      unfolding Q_def
      apply (rule exI [of _ x], rule exI [of _ s'], rule exI [of _ "Suc m"],
          rule exI [of _ "h0 @ h"])
      using y a2 h2 l2 l3 dt ll2 apply blast
      done
  qed
  have "Q e s y"
  proof (rule poll.raw_induct [where P = "\<lambda>e k s t y. Q e s y", OF _ assms], goal_cases)
    case (1 f e k s t y)
    let ?s0 = "read_suspend_all_request e s"
    show ?case
    proof (cases "suspend_all_request ?s0 = 0")
      case False
      with 1(2) have y: "y = Inr (Loop_left, ?s0)" by (simp add: Let_def)
      show ?thesis
        unfolding Q_def
        apply (rule exI [of _ Loop_left], rule exI [of _ ?s0], rule exI [of _ 0],
            rule exI [of _ "[]"])
        using y False apply (simp add: read_suspend_all_request_fields)
        done
    next
      case z: True
      from 1(2) z have body: "(case db_gather_threads_r e (calls ?s0) of
        GNull n \<Rightarrow>
          Some (Inr (Domain_terminated,
                     ?s0\<lparr>terminated := 1,
                        calls := calls ?s0 @ [E_db_gather_threads, E_db_signoff]\<rparr>))
      | GThreads ts \<Rightarrow>
          (let s4 = read_suspend_all_request e
                      (?s0\<lparr>suspend_all_request :=
                             (if \<exists>t \<in> set ts. flags t AND DEBUG_SUSPEND_FLAG k \<noteq> 0
                              then 1 else 0),
                           heap := heap ?s0 @ [None],
                           calls := calls ?s0 @ [E_db_gather_threads]\<rparr>)
           in if suspend_all_request s4 = 0
              then f e k (usleep (ucast (t + 2000)) s4) (t + 2000)
              else f e k s4 t)) = Some y"
        by (simp add: Let_def poll_turn [OF z])
      show ?thesis
      proof (cases "db_gather_threads_r e (calls ?s0)")
        case (GNull n)
        let ?s' = "?s0\<lparr>terminated := 1,
                        calls := calls ?s0 @ [E_db_gather_threads, E_db_signoff]\<rparr>"
        from body GNull have y: "y = Inr (Domain_terminated, ?s')" by simp
        have g: "db_gather_threads_r e (calls s) = GNull n"
          using GNull by (simp add: read_suspend_all_request_fields)
        show ?thesis
          unfolding Q_def
          apply (rule exI [of _ Domain_terminated], rule exI [of _ ?s'], rule exI [of _ 0],
              rule exI [of _ "[E_db_gather_threads, E_db_signoff]"])
          using y g apply (simp add: read_suspend_all_request_fields)
          done
      next
        case (GThreads ts)
        let ?s3 = "?s0\<lparr>suspend_all_request :=
                             (if \<exists>t \<in> set ts. flags t AND DEBUG_SUSPEND_FLAG k \<noteq> 0
                              then 1 else 0),
                           heap := heap ?s0 @ [None],
                           calls := calls ?s0 @ [E_db_gather_threads]\<rparr>"
        let ?s4 = "read_suspend_all_request e ?s3"
        from body have turn: "(if suspend_all_request ?s4 = 0
              then f e k (usleep (ucast (t + 2000)) ?s4) (t + 2000)
              else f e k ?s4 t) = Some y"
          by (simp only: GThreads gather_result.simps Let_def)
        show ?thesis
        proof (cases "suspend_all_request ?s4 = 0")
          case True
          have "f e k (usleep (ucast (t + 2000)) ?s4) (t + 2000) = Some y"
            using turn unfolding if_P [OF True] .
          then have "Q e (usleep (ucast (t + 2000)) ?s4) y" by (rule 1(1))
          then show ?thesis
            by (rule later [where ?h0.0 = "[E_db_gather_threads, E_usleep (ucast (t + 2000))]"])
              (simp_all add: usleep_fields read_suspend_all_request_fields)
        next
          case False
          have "f e k ?s4 t = Some y"
            using turn unfolding if_not_P [OF False] .
          then have "Q e ?s4 y" by (rule 1(1))
          then show ?thesis
            by (rule later [where ?h0.0 = "[E_db_gather_threads]"])
              (simp_all add: read_suspend_all_request_fields)
        qed
      qed
    qed
  qed
  then show ?thesis unfolding Q_def .
qed


lemma discard_cache:
  assumes "(if threads_at_rest s \<noteq> None then free s (threads_at_rest s) else Inr s) = Inr s1"
  shows "s1 = s\<lparr>heap := (case threads_at_rest s of None \<Rightarrow> heap s | Some a \<Rightarrow> (heap s)[a := None])\<rparr>"
  using assms by (auto simp: free_def split: option.splits)

lemma nativeResume_cases:
  assumes "nativeResume e k s = Some (Inr (r, s'))"
  obtains
    (terminated) s1 where
      "(if threads_at_rest s \<noteq> None then free s (threads_at_rest s) else Inr s) = Inr s1"
      "poll e k (usleep 500 (db_resume_all s1)) 0 = Some (Inr (Domain_terminated, s'))" "r = 1"
  | (rested) s1 s2 threads num_threads s3 where
      "(if threads_at_rest s \<noteq> None then free s (threads_at_rest s) else Inr s) = Inr s1"
      "poll e k (usleep 500 (db_resume_all s1)) 0 = Some (Inr (Loop_left, s2))"
      "db_gather_threads e (db_suspend_all (s2\<lparr>suspend_all_request := 0\<rparr>))
         = ((threads, num_threads), s3)"
      "s' = s3\<lparr>threads_at_rest := threads, num_threads_at_rest := num_threads\<rparr>" "r = 0"
  using assms unfolding nativeResume_def
  by (auto split: sum.splits option.splits poll_exit.splits prod.splits)

subsection \<open>Resume when the target terminates\<close>

text \<open>
  C1. In any turn of the polling loop in which no suspend request is seen and
  \<^verbatim>\<open>db_gather_threads\<close> returns \<^verbatim>\<open>NULL\<close>, the loop calls \<^verbatim>\<open>db_signoff\<close>, sets \<^verbatim>\<open>terminated\<close> and
  is left by \<^verbatim>\<open>return 1\<close>, which \<^verbatim>\<open>nativeResume\<close> hands to its caller as an ordinary result.
  Whenever \<^verbatim>\<open>nativeResume\<close> returns a value other than 0, that value is 1, \<^verbatim>\<open>terminated\<close> is
  1, the last two calls are a collection that returned \<^verbatim>\<open>NULL\<close> and the sign-off, no
  suspend-all was issued, and \<^verbatim>\<open>threads_at_rest\<close> and \<^verbatim>\<open>num_threads_at_rest\<close> hold what they
  held before the call: the only change to the store is that the block the cache pointed
  to has been freed (and every array collected while polling has been freed again).
\<close>

theorem resume_on_termination:
  "(suspend_all_request s = 0 \<and> \<not> suspend_all_arrives e (calls s)
      \<and> db_gather_threads_r e (calls s) = GNull n
     \<longrightarrow> poll e k s t =
           Some (Inr (Domain_terminated,
                      s\<lparr>terminated := 1,
                        calls := calls s @ [E_db_gather_threads, E_db_signoff]\<rparr>)))
   \<and> ((if threads_at_rest s0 \<noteq> None then free s0 (threads_at_rest s0) else Inr s0) = Inr s1
      \<and> poll e k (usleep 500 (db_resume_all s1)) 0 = Some (Inr (Domain_terminated, s2))
     \<longrightarrow> nativeResume e k s0 = Some (Inr (1, s2)))
   \<and> (nativeResume e k s0 = Some (Inr (r, s')) \<and> r \<noteq> 0
     \<longrightarrow> r = 1 \<and> terminated s' = 1
         \<and> threads_at_rest s' = threads_at_rest s0
         \<and> num_threads_at_rest s' = num_threads_at_rest s0
         \<and> (\<exists>m. heap s' =
                (case threads_at_rest s0 of None \<Rightarrow> heap s0 | Some a \<Rightarrow> (heap s0)[a := None])
                  @ replicate m None)
         \<and> (\<exists>h n. calls s' = h @ [E_db_gather_threads, E_db_signoff]
                \<and> db_gather_threads_r e h = GNull n)
         \<and> (\<exists>h. calls s' = calls s0 @ E_db_resume_all # E_usleep 500 # h
                \<and> E_db_resume_all \<notin> set h \<and> E_db_suspend_all \<notin> set h))"
proof -
  have step: "poll e k s t =
           Some (Inr (Domain_terminated,
                      s\<lparr>terminated := 1,
                        calls := calls s @ [E_db_gather_threads, E_db_signoff]\<rparr>))"
    if "suspend_all_request s = 0" "\<not> suspend_all_arrives e (calls s)"
      "db_gather_threads_r e (calls s) = GNull n"
    using that by (subst poll_unfold) (simp add: read_suspend_all_request_def)
  have ret: "nativeResume e k s0 = Some (Inr (1, s2))"
    if "(if threads_at_rest s0 \<noteq> None then free s0 (threads_at_rest s0) else Inr s0) = Inr s1"
      "poll e k (usleep 500 (db_resume_all s1)) 0 = Some (Inr (Domain_terminated, s2))"
    using that unfolding nativeResume_def by simp
  have whole: "r = 1 \<and> terminated s' = 1
         \<and> threads_at_rest s' = threads_at_rest s0
         \<and> num_threads_at_rest s' = num_threads_at_rest s0
         \<and> (\<exists>m. heap s' =
                (case threads_at_rest s0 of None \<Rightarrow> heap s0 | Some a \<Rightarrow> (heap s0)[a := None])
                  @ replicate m None)
         \<and> (\<exists>h n. calls s' = h @ [E_db_gather_threads, E_db_signoff]
                \<and> db_gather_threads_r e h = GNull n)
         \<and> (\<exists>h. calls s' = calls s0 @ E_db_resume_all # E_usleep 500 # h
                \<and> E_db_resume_all \<notin> set h \<and> E_db_suspend_all \<notin> set h)"
    if run: "nativeResume e k s0 = Some (Inr (r, s'))" and nz: "r \<noteq> 0"
    using run
  proof (cases rule: nativeResume_cases)
    case (terminated s1)
    let ?p = "usleep 500 (db_resume_all s1)"
    have s1: "s1 = s0\<lparr>heap := (case threads_at_rest s0 of None \<Rightarrow> heap s0
                                | Some a \<Rightarrow> (heap s0)[a := None])\<rparr>"
      by (rule discard_cache [OF terminated(1)])
    from poll_result [OF terminated(2)]
    obtain x sx m h where eq: "(Inr (Domain_terminated, s') :: fault + poll_exit \<times> state) = Inr (x, sx)"
      and b: "threads_at_rest sx = threads_at_rest ?p"
      "num_threads_at_rest sx = num_threads_at_rest ?p"
      "heap sx = heap ?p @ replicate m None"
      "calls sx = calls ?p @ h" "E_db_resume_all \<notin> set h" "E_db_suspend_all \<notin> set h"
      "x = Domain_terminated \<longrightarrow>
          terminated sx = 1
          \<and> (\<exists>h' n. calls sx = h' @ [E_db_gather_threads, E_db_signoff]
                 \<and> db_gather_threads_r e h' = GNull n)"
      by blast
    from eq have x: "x = Domain_terminated" and sx: "sx = s'" by simp_all
    have a: "threads_at_rest s' = threads_at_rest ?p"
      "num_threads_at_rest s' = num_threads_at_rest ?p"
      "heap s' = heap ?p @ replicate m None"
      "calls s' = calls ?p @ h" "E_db_resume_all \<notin> set h" "E_db_suspend_all \<notin> set h"
      "terminated s' = 1"
      "\<exists>h' n. calls s' = h' @ [E_db_gather_threads, E_db_signoff]
                 \<and> db_gather_threads_r e h' = GNull n"
      using b x sx by simp_all
    have p: "threads_at_rest ?p = threads_at_rest s0"
      "num_threads_at_rest ?p = num_threads_at_rest s0"
      "heap ?p = (case threads_at_rest s0 of None \<Rightarrow> heap s0 | Some a \<Rightarrow> (heap s0)[a := None])"
      "calls ?p = calls s0 @ [E_db_resume_all, E_usleep 500]"
      by (simp_all add: s1 usleep_def db_resume_all_def)
    show ?thesis
      using a p terminated(3) by simp
  next
    case (rested s1 s2 threads num_threads s3)
    with nz show ?thesis by simp
  qed
  show ?thesis using step ret whole by blast
qed

text \<open>
  A run: the cache holds one thread, the first poll sees a running thread, the second
  finds the target gone.
\<close>

lemma resume_run_terminated:
  "nativeResume (sample_env [GThreads [\<lparr>thread_id = 1, flags = 2\<rparr>], GNull 0] (\<lambda>h. False))
       sample_macros (rested_state [\<lparr>thread_id = 1, flags = 16\<rparr>]) =
     Some (Inr (1, \<lparr>terminated = 1, threads_at_rest = Some 0, num_threads_at_rest = 1,
                     suspend_all_request = 0, heap = [None, None],
                     calls = [E_db_resume_all, E_usleep 500, E_db_gather_threads, E_usleep 2000,
                              E_db_gather_threads, E_db_signoff]\<rparr>))"
  unfolding nativeResume_def
  apply (simp add: rested_state_def free_def block_at_def db_resume_all_def usleep_def)
  apply (subst poll_unfold)
  apply (simp add: read_suspend_all_request_def sample_env_def count_gathers_simps sample_macros_def
      usleep_def)
  apply (subst poll_unfold)
  apply (simp add: read_suspend_all_request_def sample_env_def count_gathers_simps sample_macros_def
      usleep_def)
  done


theorem resume_on_termination_witness:
  "poll (sample_env [] (\<lambda>h. False)) sample_macros initial_state 0 =
     Some (Inr (Domain_terminated,
                initial_state\<lparr>terminated := 1, calls := [E_db_gather_threads, E_db_signoff]\<rparr>))
   \<and> nativeResume (sample_env [GThreads [\<lparr>thread_id = 1, flags = 2\<rparr>], GNull 0] (\<lambda>h. False))
       sample_macros (rested_state [\<lparr>thread_id = 1, flags = 16\<rparr>]) =
     Some (Inr (1, \<lparr>terminated = 1, threads_at_rest = Some 0, num_threads_at_rest = 1,
                     suspend_all_request = 0, heap = [None, None],
                     calls = [E_db_resume_all, E_usleep 500, E_db_gather_threads, E_usleep 2000,
                              E_db_gather_threads, E_db_signoff]\<rparr>))
   \<and> threads_at_rest (rested_state [\<lparr>thread_id = 1, flags = 16\<rparr>]) = Some 0
   \<and> heap (rested_state [\<lparr>thread_id = 1, flags = 16\<rparr>]) = [Some [\<lparr>thread_id = 1, flags = 16\<rparr>]]
   \<and> (\<exists>h n. [E_db_resume_all, E_usleep 500, E_db_gather_threads, E_usleep 2000,
               E_db_gather_threads, E_db_signoff] = h @ [E_db_gather_threads, E_db_signoff]
         \<and> db_gather_threads_r
               (sample_env [GThreads [\<lparr>thread_id = 1, flags = 2\<rparr>], GNull 0] (\<lambda>h. False)) h
             = GNull n)"
proof -
  let ?env = "sample_env [GThreads [\<lparr>thread_id = 1, flags = 2\<rparr>], GNull 0] (\<lambda>h. False)"
  let ?s = "rested_state [\<lparr>thread_id = 1, flags = 16\<rparr>]"
  let ?t = "\<lparr>terminated = 1, threads_at_rest = Some 0, num_threads_at_rest = 1,
             suspend_all_request = 0, heap = [None, None],
             calls = [E_db_resume_all, E_usleep 500, E_db_gather_threads, E_usleep 2000,
                      E_db_gather_threads, E_db_signoff]\<rparr>"
  have h1: "suspend_all_request initial_state = 0
      \<and> \<not> suspend_all_arrives (sample_env [] (\<lambda>h. False)) (calls initial_state)
      \<and> db_gather_threads_r (sample_env [] (\<lambda>h. False)) (calls initial_state) = GNull 0"
    by (simp add: initial_state_def sample_env_def)
  have p1: "poll (sample_env [] (\<lambda>h. False)) sample_macros initial_state 0 =
     Some (Inr (Domain_terminated,
                initial_state\<lparr>terminated := 1,
                  calls := calls initial_state @ [E_db_gather_threads, E_db_signoff]\<rparr>))"
    using h1 resume_on_termination [where s = initial_state and e = "sample_env [] (\<lambda>h. False)"
        and n = 0 and k = sample_macros and t = 0]
    by blast
  have run: "nativeResume ?env sample_macros ?s = Some (Inr (1, ?t))"
    by (rule resume_run_terminated)
  have "\<exists>h n. calls ?t = h @ [E_db_gather_threads, E_db_signoff]
                \<and> db_gather_threads_r ?env h = GNull n"
    using run resume_on_termination [where ?s0.0 = ?s and e = ?env and k = sample_macros
        and r = 1 and s' = ?t]
    by simp
  then show ?thesis
    using p1 run by (simp add: initial_state_def rested_state_def)
qed

subsection \<open>A suspend-all request during polling\<close>

text \<open>
  C7. \<^verbatim>\<open>nativeSuspendAll\<close> is a total function that sets \<^verbatim>\<open>suspend_all_request\<close>, changes
  nothing else, calls nothing and returns true. A loop entered after it is left at once.
  A request that arrives while \<^verbatim>\<open>nativeResume\<close> polls is seen at the next read of the flag:
  arriving before the loop condition is read, it ends the loop with no further call;
  arriving during the collection, it ends the loop after that collection without a
  sleep; arriving during the backoff sleep, when no thread has suspended itself, it ends
  the loop as soon as that one sleep is over.
\<close>

theorem suspend_all_ends_poll:
  "nativeSuspendAll s = (1, s\<lparr>suspend_all_request := 1\<rparr>)
   \<and> poll e k (snd (nativeSuspendAll s)) t = Some (Inr (Loop_left, snd (nativeSuspendAll s)))
   \<and> (suspend_all_arrives e (calls s)
     \<longrightarrow> poll e k s t = Some (Inr (Loop_left, s\<lparr>suspend_all_request := 1\<rparr>)))
   \<and> (suspend_all_request s = 0 \<and> \<not> suspend_all_arrives e (calls s)
      \<and> db_gather_threads_r e (calls s) = GThreads ts
      \<and> suspend_all_arrives e (calls s @ [E_db_gather_threads])
     \<longrightarrow> poll e k s t =
           Some (Inr (Loop_left,
                      s\<lparr>suspend_all_request := 1, heap := heap s @ [None],
                        calls := calls s @ [E_db_gather_threads]\<rparr>)))
   \<and> (suspend_all_request s = 0 \<and> \<not> suspend_all_arrives e (calls s)
      \<and> db_gather_threads_r e (calls s) = GThreads ts
      \<and> (\<forall>th \<in> set ts. flags th AND DEBUG_SUSPEND_FLAG k = 0)
      \<and> \<not> suspend_all_arrives e (calls s @ [E_db_gather_threads])
      \<and> suspend_all_arrives e (calls s @ [E_db_gather_threads, E_usleep (ucast (t + 2000))])
     \<longrightarrow> poll e k s t =
           Some (Inr (Loop_left,
                      s\<lparr>suspend_all_request := 1, heap := heap s @ [None],
                        calls := calls s @ [E_db_gather_threads,
                                            E_usleep (ucast (t + 2000))]\<rparr>)))"
proof -
  have set1: "read_suspend_all_request e (s\<lparr>suspend_all_request := 1\<rparr>) = s\<lparr>suspend_all_request := 1\<rparr>"
    for s
    by (simp add: read_suspend_all_request_def nativeSuspendAll_def)
  have a: "nativeSuspendAll s = (1, s\<lparr>suspend_all_request := 1\<rparr>)"
    by (simp add: nativeSuspendAll_def)
  have b: "poll e k (snd (nativeSuspendAll s)) t = Some (Inr (Loop_left, snd (nativeSuspendAll s)))"
    by (subst poll.simps) (simp add: a set1)
  have c: "poll e k s t = Some (Inr (Loop_left, s\<lparr>suspend_all_request := 1\<rparr>))"
    if "suspend_all_arrives e (calls s)"
    using that by (subst poll.simps) (simp add: read_suspend_all_request_def nativeSuspendAll_def)
  have d: "poll e k s t =
           Some (Inr (Loop_left,
                      s\<lparr>suspend_all_request := 1, heap := heap s @ [None],
                        calls := calls s @ [E_db_gather_threads]\<rparr>))"
    if "suspend_all_request s = 0" "\<not> suspend_all_arrives e (calls s)"
      "db_gather_threads_r e (calls s) = GThreads ts"
      "suspend_all_arrives e (calls s @ [E_db_gather_threads])"
  proof -
    let ?s4 = "s\<lparr>suspend_all_request := 1, heap := heap s @ [None],
                        calls := calls s @ [E_db_gather_threads]\<rparr>"
    have r: "read_suspend_all_request e ?s4 = ?s4"
      by (simp add: read_suspend_all_request_def nativeSuspendAll_def)
    have p: "poll e k ?s4 t = Some (Inr (Loop_left, ?s4))"
      by (subst poll.simps) (simp add: r)
    have e1: "s\<lparr>heap := h, calls := c, suspend_all_request := 1\<rparr> =
              s\<lparr>suspend_all_request := 1, heap := h, calls := c\<rparr>" for h c
      by (cases s) simp
    show ?thesis
      apply (subst poll_unfold)
      using that p
      apply (simp add: read_suspend_all_request_def nativeSuspendAll_def e1)
      done
  qed
  have f: "poll e k s t =
           Some (Inr (Loop_left,
                      s\<lparr>suspend_all_request := 1, heap := heap s @ [None],
                        calls := calls s @ [E_db_gather_threads,
                                            E_usleep (ucast (t + 2000))]\<rparr>))"
    if "suspend_all_request s = 0" "\<not> suspend_all_arrives e (calls s)"
      "db_gather_threads_r e (calls s) = GThreads ts"
      "\<forall>th \<in> set ts. flags th AND DEBUG_SUSPEND_FLAG k = 0"
      "\<not> suspend_all_arrives e (calls s @ [E_db_gather_threads])"
      "suspend_all_arrives e (calls s @ [E_db_gather_threads, E_usleep (ucast (t + 2000))])"
  proof -
    let ?s5 = "s\<lparr>suspend_all_request := 0, heap := heap s @ [None],
                        calls := calls s @ [E_db_gather_threads, E_usleep (ucast (t + 2000))]\<rparr>"
    have p: "poll e k ?s5 (t + 2000) = Some (Inr (Loop_left, ?s5\<lparr>suspend_all_request := 1\<rparr>))"
      using that(6) by (subst poll.simps) (simp add: read_suspend_all_request_def nativeSuspendAll_def)
    show ?thesis
      apply (subst poll_unfold)
      using that p
      apply (simp add: read_suspend_all_request_def nativeSuspendAll_def usleep_def)
      done
  qed
  show ?thesis using a b c d f by blast
qed

theorem suspend_all_ends_poll_witness:
  "poll (sample_env [] (\<lambda>h. True)) sample_macros initial_state 0 =
     Some (Inr (Loop_left, initial_state\<lparr>suspend_all_request := 1\<rparr>))
   \<and> poll (sample_env [GThreads [\<lparr>thread_id = 1, flags = 2\<rparr>]] (\<lambda>h. h = [E_db_gather_threads]))
        sample_macros initial_state 0 =
     Some (Inr (Loop_left,
                initial_state\<lparr>suspend_all_request := 1, heap := [None],
                               calls := [E_db_gather_threads]\<rparr>))
   \<and> poll (sample_env [GThreads [\<lparr>thread_id = 1, flags = 2\<rparr>]]
              (\<lambda>h. h = [E_db_gather_threads, E_usleep 2000]))
        sample_macros initial_state 0 =
     Some (Inr (Loop_left,
                initial_state\<lparr>suspend_all_request := 1, heap := [None],
                               calls := [E_db_gather_threads, E_usleep 2000]\<rparr>))"
proof -
  let ?ts = "[\<lparr>thread_id = 1, flags = (2 :: cint)\<rparr>]"
  let ?ea = "sample_env [] (\<lambda>h. True)"
  let ?eb = "sample_env [GThreads ?ts] (\<lambda>h. h = [E_db_gather_threads])"
  let ?ec = "sample_env [GThreads ?ts] (\<lambda>h. h = [E_db_gather_threads, E_usleep 2000])"
  have ha: "suspend_all_arrives ?ea (calls initial_state)"
    by (simp add: sample_env_def)
  have hb: "suspend_all_request initial_state = 0 \<and> \<not> suspend_all_arrives ?eb (calls initial_state)
      \<and> db_gather_threads_r ?eb (calls initial_state) = GThreads ?ts
      \<and> suspend_all_arrives ?eb (calls initial_state @ [E_db_gather_threads])"
    by (simp add: sample_env_def initial_state_def count_gathers_simps)
  have hc: "suspend_all_request initial_state = 0 \<and> \<not> suspend_all_arrives ?ec (calls initial_state)
      \<and> db_gather_threads_r ?ec (calls initial_state) = GThreads ?ts
      \<and> (\<forall>th \<in> set ?ts. flags th AND DEBUG_SUSPEND_FLAG sample_macros = 0)
      \<and> \<not> suspend_all_arrives ?ec (calls initial_state @ [E_db_gather_threads])
      \<and> suspend_all_arrives ?ec
           (calls initial_state @ [E_db_gather_threads, E_usleep (ucast ((0 :: 64 word) + 2000))])"
    by (simp add: sample_env_def initial_state_def count_gathers_simps sample_macros_def)
  have ra: "poll ?ea sample_macros initial_state 0 =
     Some (Inr (Loop_left, initial_state\<lparr>suspend_all_request := 1\<rparr>))"
    using ha suspend_all_ends_poll [where e = ?ea and s = initial_state and k = sample_macros
        and t = 0]
    by blast
  have rb: "poll ?eb sample_macros initial_state 0 =
     Some (Inr (Loop_left,
                initial_state\<lparr>suspend_all_request := 1, heap := heap initial_state @ [None],
                               calls := calls initial_state @ [E_db_gather_threads]\<rparr>))"
    using hb suspend_all_ends_poll [where e = ?eb and s = initial_state and k = sample_macros
        and t = 0 and ts = ?ts]
    by blast
  have rc: "poll ?ec sample_macros initial_state 0 =
     Some (Inr (Loop_left,
                initial_state\<lparr>suspend_all_request := 1, heap := heap initial_state @ [None],
                               calls := calls initial_state
                                 @ [E_db_gather_threads, E_usleep (ucast ((0 :: 64 word) + 2000))]\<rparr>))"
    using hc suspend_all_ends_poll [where e = ?ec and s = initial_state and k = sample_macros
        and t = 0 and ts = ?ts]
    by blast
  show ?thesis
    using ra rb rc by (simp add: initial_state_def)
qed

subsection \<open>After the target has terminated\<close>


text \<open>
  \<^verbatim>\<open>nativeResume\<close> frees the cached block without clearing the pointer, so after a run
  that ended in termination the pointer names a freed block, and the next call frees it
  again.
\<close>

lemma resume_again_after_termination:
  "nativeResume e k
     \<lparr>terminated = 1, threads_at_rest = Some 0, num_threads_at_rest = 1,
       suspend_all_request = 0, heap = [None, None],
       calls = [E_db_resume_all, E_usleep 500, E_db_gather_threads, E_usleep 2000,
                E_db_gather_threads, E_db_signoff]\<rparr> = Some (Inl DoubleFree)"
  by (simp add: nativeResume_def free_def block_at_def)









end
